theory Spec2Isabelle
  imports Complex_Main "HOL-Library.Multiset" "HOL-Library.List_Lexorder" "HOL-Library.Char_ord"
begin

section \<open>Python values, errors and string helpers\<close>

text \<open>
  The unified query service is asynchronous Python.  Every function of the orchestrator,
  the ranking engine and the cache is embedded as a HOL function of the same name (a
  leading underscore is dropped: \<open>_rank_hybrid\<close> is \<open>rank_hybrid\<close>).  An exception
  is a value \<open>Inl e\<close> of a sum type, mutable objects are passed and returned, floats are
  real numbers, and Python strings are byte strings restricted to ASCII.
\<close>

datatype py_error =
    IndexError | KeyError | TypeError | AttributeError | ZeroDivisionError
  | ValidationError | TimeoutError | SearchError | RetryError

text \<open>Values found in the options dictionary of a request.\<close>

datatype py_value = PyNone | PyBool bool | PyInt int | PyStr string

text \<open>Python truthiness, as used by \<open>if options.get("deduplicate", True)\<close>.\<close>

fun truthy :: "py_value \<Rightarrow> bool" where
  "truthy PyNone = False"
| "truthy (PyBool b) = b"
| "truthy (PyInt n) = (n \<noteq> 0)"
| "truthy (PyStr s) = (s \<noteq> [])"

text \<open>\<open>d.get(key, default)\<close> on a dictionary kept as an association list.\<close>

definition dict_get :: "(string \<times> 'v) list \<Rightarrow> string \<Rightarrow> 'v \<Rightarrow> 'v" where
  "dict_get d k dflt = (case map_of d k of None \<Rightarrow> dflt | Some v \<Rightarrow> v)"

text \<open>\<open>xs[:v]\<close>: \<open>None\<close> keeps everything, an integer (or bool) bound may be negative,
  any other value raises \<open>TypeError\<close>.\<close>

definition slice_int :: "'a list \<Rightarrow> int \<Rightarrow> 'a list" where
  "slice_int xs n = (if 0 \<le> n then take (nat n) xs else take (length xs - nat (- n)) xs)"

fun slice_to :: "'a list \<Rightarrow> py_value \<Rightarrow> py_error + 'a list" where
  "slice_to xs PyNone = Inr xs"
| "slice_to xs (PyBool b) = Inr (slice_int xs (if b then 1 else 0))"
| "slice_to xs (PyInt n) = Inr (slice_int xs n)"
| "slice_to xs (PyStr s) = Inl TypeError"

text \<open>\<open>n < v\<close> for an integer \<open>n\<close>: comparing with \<open>None\<close> or a string raises.\<close>

fun int_less_value :: "int \<Rightarrow> py_value \<Rightarrow> py_error + bool" where
  "int_less_value n PyNone = Inl TypeError"
| "int_less_value n (PyBool b) = Inr (n < (if b then 1 else 0))"
| "int_less_value n (PyInt m) = Inr (n < m)"
| "int_less_value n (PyStr s) = Inl TypeError"

definition bind_err :: "py_error + 'a \<Rightarrow> ('a \<Rightarrow> py_error + 'b) \<Rightarrow> py_error + 'b" where
  "bind_err r f = (case r of Inl e \<Rightarrow> Inl e | Inr v \<Rightarrow> f v)"

text \<open>\<open>sep.join(xs)\<close>.\<close>

fun join :: "string \<Rightarrow> string list \<Rightarrow> string" where
  "join sep [] = []"
| "join sep [x] = x"
| "join sep (x # y # ys) = x @ sep @ join sep (y # ys)"

text \<open>\<open>str.lower\<close> and \<open>str.strip\<close> on ASCII; \<open>isspace\<close> lists the ASCII characters
  Python treats as whitespace.\<close>

definition lower_char :: "char \<Rightarrow> char" where
  "lower_char c =
     (case map_of (zip ''ABCDEFGHIJKLMNOPQRSTUVWXYZ'' ''abcdefghijklmnopqrstuvwxyz'') c of
        Some l \<Rightarrow> l
      | None \<Rightarrow> c)"

definition lower :: "string \<Rightarrow> string" where
  "lower s = map lower_char s"

definition isspace :: "char \<Rightarrow> bool" where
  "isspace c = (c \<in> set [CHR 0x09, CHR 0x0A, CHR 0x0B, CHR 0x0C, CHR 0x0D,
                         CHR 0x1C, CHR 0x1D, CHR 0x1E, CHR 0x1F, CHR '' ''])"

definition strip :: "string \<Rightarrow> string" where
  "strip s = rev (dropWhile isspace (rev (dropWhile isspace s)))"

text \<open>\<open>s.split()\<close>: the maximal runs of non-whitespace characters.\<close>

fun split_acc :: "string \<Rightarrow> string \<Rightarrow> string list" where
  "split_acc [] w = (if w = [] then [] else [w])"
| "split_acc (c # cs) w =
     (if isspace c then (if w = [] then split_acc cs [] else w # split_acc cs [])
      else split_acc cs (w @ [c]))"

definition split :: "string \<Rightarrow> string list" where
  "split s = split_acc s []"

text \<open>\<open>t in s\<close> on strings: \<open>t\<close> occurs in \<open>s\<close> as a contiguous substring.\<close>

fun starts_with :: "string \<Rightarrow> string \<Rightarrow> bool" where
  "starts_with [] s = True"
| "starts_with (a # t) [] = False"
| "starts_with (a # t) (b # s) = (a = b \<and> starts_with t s)"

fun contains :: "string \<Rightarrow> string \<Rightarrow> bool" where
  "contains t [] = (t = [])"
| "contains t (c # s) = (starts_with t (c # s) \<or> contains t s)"

section \<open>Data model (models.py, config.py)\<close>

datatype QueryMode = UNIFIED | SEQUENTIAL | PARALLEL | SMART

text \<open>\<open>f"{mode}"\<close> for a member of the enum \<open>QueryMode(str, Enum)\<close>, as Python 3.11 and
  later print it (earlier versions print the value, \<open>smart\<close>).\<close>

fun mode_str :: "QueryMode \<Rightarrow> string" where
  "mode_str UNIFIED = ''QueryMode.UNIFIED''"
| "mode_str SEQUENTIAL = ''QueryMode.SEQUENTIAL''"
| "mode_str PARALLEL = ''QueryMode.PARALLEL''"
| "mode_str SMART = ''QueryMode.SMART''"

text \<open>The values of the enum \<open>MemorySource\<close>.\<close>

definition MemorySource :: "string list" where
  "MemorySource = [''cognee'', ''memento'', ''memos'', ''llamacloud'']"

text \<open>\<open>QueryResult\<close>; the timestamp is in seconds.  A metadata dictionary maps a key to
  a list of strings (the orchestrator reads \<open>keywords\<close> and \<open>entities\<close> only).\<close>

record QueryResult =
  result_id :: string
  content :: string
  source :: string
  score :: real
  metadata :: "(string \<times> string list) list"
  timestamp :: real
  highlights :: "string list option"

text \<open>A result dictionary as an adapter returns it; \<open>None\<close> is an absent key.\<close>

record RawResult =
  raw_id :: "string option"
  raw_content :: "string option"
  raw_score :: "real option"
  raw_metadata :: "(string \<times> string list) list option"
  raw_highlights :: "string list option"

datatype results_payload =
    Ranked "QueryResult list"
  | Grouped "(string \<times> QueryResult list) list"

fun payload_len :: "results_payload \<Rightarrow> nat" where
  "payload_len (Ranked rs) = length rs"
| "payload_len (Grouped g) = length g"

text \<open>The response dictionary built by \<open>query\<close>; the two metadata entries are the
  last two fields.\<close>

record QueryResponse =
  resp_query :: string
  resp_mode :: QueryMode
  results :: results_payload
  total_results :: nat
  processing_time :: real
  sources_queried :: "string list"
  cache_hit :: bool
  resp_timestamp :: real

record QueryStats =
  total_queries :: int
  queries_by_mode :: "QueryMode \<rightharpoonup> int"
  queries_by_source :: "string \<rightharpoonup> int"
  average_latency :: real
  cache_hit_rate :: real
  error_rate :: real

text \<open>\<open>settings.RANKING_WEIGHTS\<close> and the feature lists of
  \<open>settings.MEMORY_SYSTEM_CONFIG\<close>, in the order of the configuration.\<close>

definition RANKING_WEIGHTS :: "string \<rightharpoonup> real" where
  "RANKING_WEIGHTS = map_of [(''relevance'', 0.4), (''recency'', 0.2),
                             (''source_trust'', 0.2), (''user_preference'', 0.2)]"

definition MEMORY_SYSTEM_CONFIG :: "(string \<times> string list) list" where
  "MEMORY_SYSTEM_CONFIG =
     [(''cognee'', [''semantic_search'', ''graph_traversal'', ''concept_linking'']),
      (''memento'', [''key_value'', ''fast_retrieval'', ''simple_storage'']),
      (''memos'', [''multi_type_memory'', ''user_context'', ''activation_memory'']),
      (''llamacloud'', [''document_search'', ''structured_extraction'', ''rag''])]"

section \<open>Ranking engine (ranking.py)\<close>

definition get_source_trust :: "string \<Rightarrow> real" where
  "get_source_trust src =
     dict_get [(''cognee'', 0.9), (''llamacloud'', 0.85), (''memos'', 0.8), (''memento'', 0.7)]
       src 0.5"

text \<open>\<open>weights[k]\<close> raises \<open>KeyError\<close> on a missing key.\<close>

definition weight :: "(string \<rightharpoonup> real) \<Rightarrow> string \<Rightarrow> py_error + real" where
  "weight weights k = (case weights k of None \<Rightarrow> Inl KeyError | Some w \<Rightarrow> Inr w)"

text \<open>The body of the scoring loop of \<open>_rank_hybrid\<close> for one result; \<open>now\<close> is the
  reading of \<open>datetime.utcnow()\<close>.\<close>

definition composite_score :: "real \<Rightarrow> (string \<rightharpoonup> real) \<Rightarrow> QueryResult \<Rightarrow> py_error + real" where
  "composite_score now weights r =
     bind_err (weight weights ''relevance'') (\<lambda>w_relevance.
       let relevance_score = score r * w_relevance;
           age_hours = (now - timestamp r) / 3600
       in bind_err (weight weights ''recency'') (\<lambda>w_recency.
         let recency_score = exp (- age_hours / 168) * w_recency;
             source_trust = get_source_trust (source r)
         in bind_err (weight weights ''source_trust'') (\<lambda>w_trust.
           let trust_score = source_trust * w_trust
           in bind_err (weight weights ''user_preference'') (\<lambda>w_user.
             let preference_score = 0.5 * w_user
             in Inr (relevance_score + recency_score + trust_score + preference_score)))))"

fun score_all :: "real \<Rightarrow> (string \<rightharpoonup> real) \<Rightarrow> QueryResult list \<Rightarrow> py_error + QueryResult list" where
  "score_all now weights [] = Inr []"
| "score_all now weights (r # rs) =
     bind_err (composite_score now weights r) (\<lambda>s.
       bind_err (score_all now weights rs) (\<lambda>rs'. Inr (r\<lparr>score := s\<rparr> # rs')))"

text \<open>\<open>sorted(xs, key=k, reverse=True)\<close> is the stable sort by descending key.\<close>

definition sorted_desc :: "('a \<Rightarrow> real) \<Rightarrow> 'a list \<Rightarrow> 'a list" where
  "sorted_desc k xs = sort_key (\<lambda>x. - k x) xs"

definition rank_hybrid :: "real \<Rightarrow> QueryResult list \<Rightarrow> (string \<rightharpoonup> real) \<Rightarrow> py_error + QueryResult list" where
  "rank_hybrid now rs weights =
     bind_err (score_all now weights rs) (\<lambda>scored. Inr (sorted_desc score scored))"

definition rank_by_relevance :: "QueryResult list \<Rightarrow> QueryResult list" where
  "rank_by_relevance rs = sorted_desc score rs"

definition rank_by_recency :: "QueryResult list \<Rightarrow> QueryResult list" where
  "rank_by_recency rs = sorted_desc timestamp rs"

definition rank :: "real \<Rightarrow> QueryResult list \<Rightarrow> py_value \<Rightarrow> (string \<rightharpoonup> real) option
                     \<Rightarrow> py_error + QueryResult list" where
  "rank now rs strategy weights =
     (if rs = [] then Inr rs
      else
        let ws = (case weights of None \<Rightarrow> RANKING_WEIGHTS | Some w \<Rightarrow> w)
        in if strategy = PyStr ''relevance'' then Inr (rank_by_relevance rs)
           else if strategy = PyStr ''recency'' then Inr (rank_by_recency rs)
           else rank_hybrid now rs ws)"

section \<open>Result cache (cache.py)\<close>

text \<open>
  \<open>QueryCache\<close> wraps a key-value backend and hands it the key, the value and the
  \<open>ttl\<close> argument, nothing else.  It keeps \<open>max_size\<close> and the two counters
  \<open>hits\<close> and \<open>misses\<close>; \<open>store\<close> and \<open>backend_ttl\<close> are the backend's
  entries and the \<open>ttl\<close> it was created with.
\<close>

record cache_entry =
  entry_value :: QueryResponse
  expires_at :: real

record QueryCache =
  store :: "(string \<times> cache_entry) list"
  backend_ttl :: real
  max_size :: int
  hits :: int
  misses :: int

definition QueryCache_init :: "real \<Rightarrow> int \<Rightarrow> QueryCache" where
  "QueryCache_init ttl bound =
     \<lparr>store = [], backend_ttl = ttl, max_size = bound, hits = 0, misses = 0\<rparr>"

text \<open>
  Modelled from the spec: the expiry of the backend's entries (section 4.3, "entries expire
  after TTL (default 300s for query results)").  The backend is the \<open>aiocache\<close> package,
  which is not under src/.  \<open>backend_set\<close> stores or overwrites the entry of a key, with
  the lifetime \<open>ttl\<close> or, when none is given, the lifetime the backend was created with;
  \<open>backend_get\<close> returns a stored value that has not expired, and what is stored is what
  is returned.  \<open>QueryCache.__init__\<close> creates the backend with a \<open>ttl\<close>, the
  serializer \<open>JsonSerializer()\<close> and no size, so the model gives it no bound:
  \<open>backend_set\<close> removes no entry of another key.
\<close>

definition live :: "real \<Rightarrow> cache_entry \<Rightarrow> bool" where
  "live now e = (now < expires_at e)"

definition backend_get :: "(string \<times> cache_entry) list \<Rightarrow> string \<Rightarrow> real \<Rightarrow> QueryResponse option" where
  "backend_get st key now =
     (case map_of st key of
        None \<Rightarrow> None
      | Some e \<Rightarrow> if live now e then Some (entry_value e) else None)"

definition backend_set :: "(string \<times> cache_entry) list \<Rightarrow> real \<Rightarrow> string \<Rightarrow> QueryResponse
                            \<Rightarrow> real option \<Rightarrow> real \<Rightarrow> (string \<times> cache_entry) list" where
  "backend_set st dflt key v ttl now =
     (let lifetime = (case ttl of None \<Rightarrow> dflt | Some t \<Rightarrow> t)
      in (key, \<lparr>entry_value = v, expires_at = now + lifetime\<rparr>)
           # filter (\<lambda>kv. fst kv \<noteq> key) st)"

text \<open>
  The serializer of the backend is \<open>JsonSerializer\<close>: a value is passed through
  \<open>json.dumps\<close> before it is stored.  The strings, numbers, booleans, lists and
  dictionaries of a response are serializable (a member of a \<open>str\<close> enum is a string);
  a \<open>QueryResult\<close> object is not, and \<open>json.dumps\<close> raises \<open>TypeError\<close> on a
  response that holds one, in its result list or in one of its groups.
\<close>

fun json_serializable :: "results_payload \<Rightarrow> bool" where
  "json_serializable (Ranked rs) = (rs = [])"
| "json_serializable (Grouped g) = list_all (\<lambda>group. snd group = []) g"

text \<open>\<open>QueryCache.get\<close> and \<open>QueryCache.set\<close>; \<open>now\<close> is the backend's clock.  A
  \<open>set\<close> that raises leaves the cache as it was.\<close>

definition cache_get :: "QueryCache \<Rightarrow> string \<Rightarrow> real \<Rightarrow> QueryResponse option \<times> QueryCache" where
  "cache_get c key now =
     (let result = backend_get (store c) key now
      in if result \<noteq> None then (result, c\<lparr>hits := hits c + 1\<rparr>)
         else (result, c\<lparr>misses := misses c + 1\<rparr>))"

definition cache_set :: "QueryCache \<Rightarrow> string \<Rightarrow> QueryResponse \<Rightarrow> real option \<Rightarrow> real
                          \<Rightarrow> py_error + QueryCache" where
  "cache_set c key v ttl now =
     (if json_serializable (results v)
      then Inr (c\<lparr>store := backend_set (store c) (backend_ttl c) key v ttl now\<rparr>)
      else Inl TypeError)"

text \<open>The entries a \<open>get\<close> at time \<open>now\<close> can still return.\<close>

definition live_entries :: "QueryCache \<Rightarrow> real \<Rightarrow> (string \<times> cache_entry) list" where
  "live_entries c now = filter (\<lambda>kv. live now (snd kv)) (store c)"

text \<open>The cache after a run of \<open>set\<close> calls, each with its key, value, \<open>ttl\<close>
  argument and time.\<close>

fun cache_set_all :: "QueryCache \<Rightarrow> (string \<times> QueryResponse \<times> real option \<times> real) list \<Rightarrow> QueryCache" where
  "cache_set_all c [] = c"
| "cache_set_all c ((key, v, ttl, now) # ops) =
     cache_set_all (case cache_set c key v ttl now of Inl e \<Rightarrow> c | Inr c' \<Rightarrow> c') ops"

section \<open>Query orchestrator (orchestrator.py)\<close>

text \<open>
  The surroundings of one call of \<open>query\<close>.  An adapter is the outcome of
  \<open>adapter.search(query, options)\<close> under \<open>asyncio.wait_for\<close>, for each attempt of
  the retry decorator: a list of result dictionaries, or an exception (a timeout is
  \<open>TimeoutError\<close>).  \<open>adapters\<close> is the dictionary \<open>self.adapters\<close> in insertion
  order.  \<open>py_repr\<close> and \<open>py_hash\<close> are the builtins \<open>repr\<close> and \<open>hash\<close>,
  \<open>set_order\<close> is the order in which \<open>list(set(xs))\<close> enumerates a set, and the
  remaining fields are the clock readings the call takes.
\<close>

type_synonym options = "(string \<times> py_value) list"

type_synonym adapter = "nat \<Rightarrow> string \<Rightarrow> options option \<Rightarrow> py_error + RawResult list"

record environment =
  adapters :: "(string \<times> adapter) list"
  py_repr :: "py_value \<Rightarrow> string"
  py_hash :: "string \<Rightarrow> int"
  set_order :: "string list \<Rightarrow> string list"
  start_time :: real
  cache_time :: real
  utcnow_result :: real
  utcnow_rank :: real
  response_time :: real
  utcnow_response :: real
  stats_time :: real

text \<open>The orchestrator's mutable state; \<open>adapter_calls\<close> records every
  \<open>adapter.search\<close> call as (source, query text).\<close>

record orchestrator =
  cache :: QueryCache
  stats :: QueryStats
  adapter_calls :: "(string \<times> string) list"

subsection \<open>Cache key\<close>

text \<open>\<open>str(sorted(options.items()))\<close>: the keys of a dictionary are distinct, so the
  tuples are ordered by key; \<open>repr_v\<close> prints a value.\<close>

definition items_str :: "(py_value \<Rightarrow> string) \<Rightarrow> options \<Rightarrow> string" where
  "items_str repr_v items =
     ''['' @ join '', '' (map (\<lambda>(k, v). ''('' @ repr_v (PyStr k) @ '', '' @ repr_v v @ '')'') items)
       @ '']''"

definition generate_cache_key :: "(py_value \<Rightarrow> string) \<Rightarrow> string \<Rightarrow> QueryMode \<Rightarrow> string list option
                                   \<Rightarrow> options option \<Rightarrow> string" where
  "generate_cache_key repr_v q mode srcs opts =
     (let sources_str = join '','' (sort (case srcs of None \<Rightarrow> [] | Some ss \<Rightarrow> ss));
          options_str = (case opts of
                           None \<Rightarrow> []
                         | Some d \<Rightarrow> if d = [] then [] else items_str repr_v (sort_key fst d))
      in q @ '':'' @ mode_str mode @ '':'' @ sources_str @ '':'' @ options_str)"

subsection \<open>Deduplication\<close>

fun dedup_loop :: "(string \<Rightarrow> int) \<Rightarrow> QueryResult list \<Rightarrow> int set \<Rightarrow> QueryResult list
                     \<Rightarrow> QueryResult list" where
  "dedup_loop hash_fn [] seen unique_results = unique_results"
| "dedup_loop hash_fn (r # rest) seen unique_results =
     (let content_hash = hash_fn (strip (lower (content r)))
      in if content_hash \<notin> seen
         then dedup_loop hash_fn rest (insert content_hash seen) (unique_results @ [r])
         else dedup_loop hash_fn rest seen unique_results)"

definition deduplicate_results :: "(string \<Rightarrow> int) \<Rightarrow> QueryResult list \<Rightarrow> QueryResult list" where
  "deduplicate_results hash_fn rs = dedup_loop hash_fn rs {} []"

text \<open>The specification's reading of deduplication: keep an element, drop every later
  element of its class, go on with what is left.\<close>

fun first_occurrences :: "('a \<Rightarrow> 'k) \<Rightarrow> 'a list \<Rightarrow> 'a list" where
  "first_occurrences key [] = []"
| "first_occurrences key (x # xs) =
     x # first_occurrences key (filter (\<lambda>y. key y \<noteq> key x) xs)"

definition normalized_content :: "QueryResult \<Rightarrow> string" where
  "normalized_content r = strip (lower (content r))"

subsection \<open>Statistics\<close>

definition count_source :: "(string \<rightharpoonup> int) \<Rightarrow> string \<Rightarrow> (string \<rightharpoonup> int)" where
  "count_source m src = m(src \<mapsto> (case m src of None \<Rightarrow> 0 | Some c \<Rightarrow> c) + 1)"

text \<open>\<open>_update_stats\<close> returns the statistics as the call leaves them and the exception
  it raised, if any: the division is by the incremented \<open>total_queries\<close>.\<close>

definition update_stats :: "QueryMode \<Rightarrow> string list \<Rightarrow> real \<Rightarrow> QueryStats
                             \<Rightarrow> QueryStats \<times> py_error option" where
  "update_stats mode srcs latency s =
     (let s1 = s\<lparr>total_queries := total_queries s + 1\<rparr>;
          s2 = s1\<lparr>queries_by_mode := (queries_by_mode s1)
                    (mode \<mapsto> (case queries_by_mode s1 mode of None \<Rightarrow> 0 | Some c \<Rightarrow> c) + 1)\<rparr>;
          s3 = s2\<lparr>queries_by_source := foldl count_source (queries_by_source s2) srcs\<rparr>
      in if total_queries s3 = 0 then (s3, Some ZeroDivisionError)
         else (s3\<lparr>average_latency :=
                    (average_latency s3 * real_of_int (total_queries s3 - 1) + latency)
                      / real_of_int (total_queries s3)\<rparr>, None))"

subsection \<open>Querying one source\<close>

text \<open>The construction of a \<open>QueryResult\<close> validates its fields: the source is a
  member of \<open>MemorySource\<close> and the score lies in [0, 1].\<close>

definition to_query_result :: "string \<Rightarrow> real \<Rightarrow> RawResult \<Rightarrow> py_error + QueryResult" where
  "to_query_result src now raw =
     (let sc = (case raw_score raw of None \<Rightarrow> 0 | Some v \<Rightarrow> v)
      in if src \<in> set MemorySource \<and> 0 \<le> sc \<and> sc \<le> 1
         then Inr \<lparr>result_id = (case raw_id raw of None \<Rightarrow> [] | Some i \<Rightarrow> i),
                   content = (case raw_content raw of None \<Rightarrow> [] | Some c \<Rightarrow> c),
                   source = src,
                   score = sc,
                   metadata = (case raw_metadata raw of None \<Rightarrow> [] | Some m \<Rightarrow> m),
                   timestamp = now,
                   highlights = raw_highlights raw\<rparr>
         else Inl ValidationError)"

fun convert_results :: "string \<Rightarrow> real \<Rightarrow> RawResult list \<Rightarrow> py_error + QueryResult list" where
  "convert_results src now [] = Inr []"
| "convert_results src now (raw # raws) =
     bind_err (to_query_result src now raw) (\<lambda>r.
       bind_err (convert_results src now raws) (\<lambda>rs. Inr (r # rs)))"

text \<open>The body of \<open>_query_single_source\<close>, run as attempt number \<open>i\<close>.\<close>

definition search_attempt :: "environment \<Rightarrow> string \<Rightarrow> string \<Rightarrow> options option \<Rightarrow> nat
                               \<Rightarrow> (string \<times> string) list
                               \<Rightarrow> (py_error + QueryResult list) \<times> (string \<times> string) list" where
  "search_attempt env src q opts i calls =
     (case map_of (adapters env) src of
        None \<Rightarrow> (Inr [], calls)
      | Some adapter \<Rightarrow>
          (bind_err (adapter i q opts) (convert_results src (utcnow_result env)),
           calls @ [(src, q)]))"

text \<open>The decorator \<open>@retry(stop=stop_after_attempt(3), ...)\<close>: any exception leads to
  another attempt, and the last failure is raised as \<open>RetryError\<close>.\<close>

fun retry_from :: "nat \<Rightarrow> nat \<Rightarrow> (nat \<Rightarrow> 'c \<Rightarrow> (py_error + 'a) \<times> 'c) \<Rightarrow> 'c
                     \<Rightarrow> (py_error + 'a) \<times> 'c" where
  "retry_from 0 i f calls = (Inl RetryError, calls)"
| "retry_from (Suc n) i f calls =
     (case f i calls of
        (Inr v, calls') \<Rightarrow> (Inr v, calls')
      | (Inl e, calls') \<Rightarrow> retry_from n (Suc i) f calls')"

definition query_single_source :: "environment \<Rightarrow> string \<Rightarrow> string \<Rightarrow> options option
                                    \<Rightarrow> (string \<times> string) list
                                    \<Rightarrow> (py_error + QueryResult list) \<times> (string \<times> string) list" where
  "query_single_source env src q opts calls = retry_from 3 0 (search_attempt env src q opts) calls"

subsection \<open>Unified and parallel fan-out\<close>

text \<open>\<open>asyncio.gather(*tasks, return_exceptions=True)\<close>: one outcome per task, in the
  order of the tasks.\<close>

fun gather :: "environment \<Rightarrow> string \<Rightarrow> options option \<Rightarrow> string list \<Rightarrow> (string \<times> string) list
                 \<Rightarrow> (py_error + QueryResult list) list \<times> (string \<times> string) list" where
  "gather env q opts [] calls = ([], calls)"
| "gather env q opts (src # rest) calls =
     (let (out, calls1) = query_single_source env src q opts calls;
          (outs, calls2) = gather env q opts rest calls1
      in (out # outs, calls2))"

definition query_unified :: "environment \<Rightarrow> string \<Rightarrow> string list \<Rightarrow> options option
                              \<Rightarrow> (string \<times> string) list
                              \<Rightarrow> QueryResult list \<times> (string \<times> string) list" where
  "query_unified env q srcs opts calls =
     (let (outs, calls1) = gather env q opts srcs calls
      in (foldl (\<lambda>all_results source_results.
                   case source_results of
                     Inl e \<Rightarrow> all_results
                   | Inr rs \<Rightarrow> all_results @ rs) [] outs,
          calls1))"

text \<open>\<open>_query_parallel\<close> keys its tasks and its groups by source name, so a name listed
  twice is one task and one group, at the place of its first occurrence.\<close>

definition query_parallel :: "environment \<Rightarrow> string \<Rightarrow> string list \<Rightarrow> options option
                               \<Rightarrow> (string \<times> string) list
                               \<Rightarrow> (string \<times> QueryResult list) list \<times> (string \<times> string) list" where
  "query_parallel env q srcs opts calls =
     (let names = first_occurrences (\<lambda>s. s) srcs;
          (outs, calls1) = gather env q opts names calls
      in (map (\<lambda>(s, out). (s, case out of Inl e \<Rightarrow> [] | Inr rs \<Rightarrow> rs)) (zip names outs),
          calls1))"

subsection \<open>Sequential chain\<close>

text \<open>The context dictionary; \<open>None\<close> is an absent key.\<close>

record query_context =
  key_terms :: "string list option"
  entities :: "string list option"

definition empty_context :: query_context where
  "empty_context = \<lparr>key_terms = None, entities = None\<rparr>"

definition enhance_query_with_context :: "string \<Rightarrow> query_context \<Rightarrow> string" where
  "enhance_query_with_context q ctx =
     (if key_terms ctx = None \<and> entities ctx = None then q
      else
        let kts = (case key_terms ctx of None \<Rightarrow> [] | Some k \<Rightarrow> k);
            ents = (case entities ctx of None \<Rightarrow> [] | Some e \<Rightarrow> e);
            enhancements =
              (if kts \<noteq> [] then [''Related to: '' @ join '', '' (take 5 kts)] else [])
              @ (if ents \<noteq> [] then [''Involving: '' @ join '', '' (take 5 ents)] else [])
        in if enhancements \<noteq> [] then q @ '' ('' @ join ''; '' enhancements @ '')'' else q)"

definition absorb_metadata :: "query_context \<Rightarrow> QueryResult \<Rightarrow> query_context" where
  "absorb_metadata ctx r =
     (let c1 = (case map_of (metadata r) ''keywords'' of
                  None \<Rightarrow> ctx
                | Some ks \<Rightarrow>
                    ctx\<lparr>key_terms := Some ((case key_terms ctx of None \<Rightarrow> [] | Some k \<Rightarrow> k) @ ks)\<rparr>)
      in case map_of (metadata r) ''entities'' of
           None \<Rightarrow> c1
         | Some es \<Rightarrow>
             c1\<lparr>entities := Some ((case entities c1 of None \<Rightarrow> [] | Some e \<Rightarrow> e) @ es)\<rparr>)"

definition update_context :: "(string list \<Rightarrow> string list) \<Rightarrow> query_context \<Rightarrow> QueryResult list \<Rightarrow> query_context" where
  "update_context order ctx rs =
     (let c = foldl absorb_metadata ctx (take 5 rs);
          c1 = (case key_terms c of
                  None \<Rightarrow> c
                | Some k \<Rightarrow> c\<lparr>key_terms := Some (take 10 (order k))\<rparr>)
      in case entities c1 of
           None \<Rightarrow> c1
         | Some e \<Rightarrow> c1\<lparr>entities := Some (take 10 (order e))\<rparr>)"

fun sequential_loop :: "environment \<Rightarrow> string \<Rightarrow> options option \<Rightarrow> string list \<Rightarrow> query_context
                          \<Rightarrow> QueryResult list \<Rightarrow> (string \<times> string) list
                          \<Rightarrow> QueryResult list \<times> (string \<times> string) list" where
  "sequential_loop env q opts [] ctx all_results calls = (all_results, calls)"
| "sequential_loop env q opts (src # rest) ctx all_results calls =
     (let enhanced_query = enhance_query_with_context q ctx
      in case query_single_source env src enhanced_query opts calls of
           (Inr rs, calls1) \<Rightarrow>
             sequential_loop env q opts rest (update_context (set_order env) ctx rs)
               (all_results @ rs) calls1
         | (Inl e, calls1) \<Rightarrow> sequential_loop env q opts rest ctx all_results calls1)"

definition query_sequential :: "environment \<Rightarrow> string \<Rightarrow> string list \<Rightarrow> options option
                                 \<Rightarrow> (string \<times> string) list
                                 \<Rightarrow> QueryResult list \<times> (string \<times> string) list" where
  "query_sequential env q srcs opts calls = sequential_loop env q opts srcs empty_context [] calls"

subsection \<open>Query analysis and smart routing\<close>

record analysis =
  query_type :: string
  complexity :: string
  requires_context :: bool
  broad_search :: bool
  recommended_sources :: "string list"
  features_needed :: "string list"
  recommended_mode :: QueryMode

text \<open>\<open>any(term in s for term in terms)\<close>.\<close>

definition any_in :: "string list \<Rightarrow> string \<Rightarrow> bool" where
  "any_in terms s = list_ex (\<lambda>t. contains t s) terms"

definition analyze_query :: "string \<Rightarrow> analysis" where
  "analyze_query q =
     (let query_lower = lower q;
          qtype = (if any_in [''how'', ''why'', ''explain''] query_lower then ''explanatory''
                   else if any_in [''when'', ''date'', ''time''] query_lower then ''temporal''
                   else if any_in [''who'', ''person'', ''user''] query_lower then ''entity''
                   else if any_in [''document'', ''file'', ''pdf''] query_lower then ''document''
                   else ''general'');
          needs_context = (qtype = ''explanatory'');
          is_complex = (10 < length (split q) \<or> any_in [''AND'', ''OR'', ''NOT''] q);
          recommended =
            (if qtype = ''explanatory'' then [''cognee'', ''llamacloud'']
             else if qtype = ''document'' then [''llamacloud'', ''memos'']
             else if qtype = ''entity'' then [''memos'', ''cognee'']
             else [''cognee'', ''llamacloud'', ''memos'']);
          features =
            (if qtype = ''explanatory'' then [''semantic_search'', ''concept_linking'']
             else if qtype = ''document'' then [''document_search'', ''structured_extraction'']
             else if qtype = ''entity'' then [''user_context'', ''graph_traversal'']
             else [''semantic_search'', ''fast_retrieval''])
      in \<lparr>query_type = qtype,
          complexity = (if is_complex then ''complex'' else ''simple''),
          requires_context = needs_context,
          broad_search = is_complex,
          recommended_sources = recommended,
          features_needed = features,
          recommended_mode = (if needs_context then SEQUENTIAL
                              else if is_complex then UNIFIED else SMART)\<rparr>)"

definition select_sources_for_query :: "environment \<Rightarrow> analysis \<Rightarrow> string list \<Rightarrow> string list" where
  "select_sources_for_query env a available_sources =
     (let selected1 = filter (\<lambda>s. s \<in> set available_sources \<and> map_of (adapters env) s \<noteq> None)
                        (recommended_sources a);
          selected2 = foldl (\<lambda>selected (src, source_features).
                               if src \<in> set available_sources \<and> src \<notin> set selected
                                  \<and> list_ex (\<lambda>feature. feature \<in> set source_features)
                                       (features_needed a)
                               then selected @ [src] else selected)
                        selected1 MEMORY_SYSTEM_CONFIG
      in if selected2 = [] then available_sources else selected2)"

text \<open>\<open>options.get(...)\<close> on \<open>options = None\<close> raises \<open>AttributeError\<close>.\<close>

definition options_get :: "options option \<Rightarrow> string \<Rightarrow> py_value \<Rightarrow> py_error + py_value" where
  "options_get opts k dflt =
     (case opts of None \<Rightarrow> Inl AttributeError | Some d \<Rightarrow> Inr (dict_get d k dflt))"

definition query_smart :: "environment \<Rightarrow> string \<Rightarrow> string list \<Rightarrow> options option
                            \<Rightarrow> (string \<times> string) list
                            \<Rightarrow> (py_error + QueryResult list) \<times> (string \<times> string) list" where
  "query_smart env q srcs opts calls =
     (let a = analyze_query q;
          selected_sources = select_sources_for_query env a srcs
      in if requires_context a then
           (let (rs, calls1) = query_sequential env q selected_sources opts calls
            in (Inr rs, calls1))
         else if broad_search a then
           (let (rs, calls1) = query_unified env q selected_sources opts calls
            in (Inr rs, calls1))
         else
           (case selected_sources of
              [] \<Rightarrow> (Inl IndexError, calls)
            | primary_source # others \<Rightarrow>
                (case query_single_source env primary_source q opts calls of
                   (Inl e, calls1) \<Rightarrow> (Inl e, calls1)
                 | (Inr rs, calls1) \<Rightarrow>
                     (case bind_err (options_get opts ''max_results'' (PyInt 10))
                             (int_less_value (int (length rs))) of
                        Inl e \<Rightarrow> (Inl e, calls1)
                      | Inr insufficient \<Rightarrow>
                          if insufficient then
                            (let (additional_results, calls2) =
                                   query_unified env q others opts calls1
                             in (Inr (rs @ additional_results), calls2))
                          else (Inr rs, calls1)))))"

subsection \<open>Post-processing and the public operation\<close>

definition process_results :: "environment \<Rightarrow> QueryResult list \<Rightarrow> options option
                                \<Rightarrow> py_error + QueryResult list" where
  "process_results env rs opts =
     (if rs = [] then Inr []
      else
        bind_err (options_get opts ''deduplicate'' (PyBool True)) (\<lambda>dedup.
          let rs1 = (if truthy dedup then deduplicate_results (py_hash env) rs else rs)
          in bind_err (options_get opts ''ranking_strategy'' (PyStr ''hybrid'')) (\<lambda>ranking_strategy.
               bind_err (rank (utcnow_rank env) rs1 ranking_strategy (Some RANKING_WEIGHTS)) (\<lambda>ranked.
                 bind_err (options_get opts ''max_results'' (PyInt 10)) (\<lambda>max_results.
                   slice_to ranked max_results)))))"

text \<open>The source list \<open>query\<close> works with: all adapters when none is asked for,
  otherwise the requested names that have an adapter.\<close>

definition resolve_sources :: "environment \<Rightarrow> string list option \<Rightarrow> string list" where
  "resolve_sources env srcs =
     (case srcs of
        None \<Rightarrow> map fst (adapters env)
      | Some ss \<Rightarrow> if ss = [] then map fst (adapters env)
                   else filter (\<lambda>s. map_of (adapters env) s \<noteq> None) ss)"

text \<open>The dispatch on the mode, followed by \<open>_process_results\<close> unless the mode is
  \<open>PARALLEL\<close>.\<close>

definition run_mode :: "environment \<Rightarrow> string \<Rightarrow> QueryMode \<Rightarrow> string list \<Rightarrow> options option
                         \<Rightarrow> (string \<times> string) list
                         \<Rightarrow> (py_error + results_payload) \<times> (string \<times> string) list" where
  "run_mode env q mode srcs opts calls =
     (case mode of
        UNIFIED \<Rightarrow>
          (let (rs, calls1) = query_unified env q srcs opts calls
           in (bind_err (process_results env rs opts) (\<lambda>final. Inr (Ranked final)), calls1))
      | SEQUENTIAL \<Rightarrow>
          (let (rs, calls1) = query_sequential env q srcs opts calls
           in (bind_err (process_results env rs opts) (\<lambda>final. Inr (Ranked final)), calls1))
      | PARALLEL \<Rightarrow>
          (let (grouped, calls1) = query_parallel env q srcs opts calls
           in (Inr (Grouped grouped), calls1))
      | SMART \<Rightarrow>
          (case query_smart env q srcs opts calls of
             (Inl e, calls1) \<Rightarrow> (Inl e, calls1)
           | (Inr rs, calls1) \<Rightarrow>
               (bind_err (process_results env rs opts) (\<lambda>final. Inr (Ranked final)), calls1)))"

definition query :: "environment \<Rightarrow> string \<Rightarrow> QueryMode \<Rightarrow> string list option \<Rightarrow> options option
                      \<Rightarrow> orchestrator \<Rightarrow> (py_error + QueryResponse) \<times> orchestrator" where
  "query env q mode srcs opts st =
     (let cache_key = generate_cache_key (py_repr env) q mode srcs opts;
          (cached_result, cache1) = cache_get (cache st) cache_key (cache_time env)
      in case cached_result of
           Some cached \<Rightarrow>
             (Inr cached,
              st\<lparr>cache := cache1,
                 stats := (stats st)\<lparr>cache_hit_rate := cache_hit_rate (stats st) + 1\<rparr>\<rparr>)
         | None \<Rightarrow>
             (let sources = resolve_sources env srcs;
                  (outcome, calls1) = run_mode env q mode sources opts (adapter_calls st);
                  st1 = st\<lparr>cache := cache1, adapter_calls := calls1\<rparr>
              in case outcome of
                   Inl e \<Rightarrow> (Inl e, st1)
                 | Inr final \<Rightarrow>
                     (let response =
                            \<lparr>resp_query = q, resp_mode = mode, results = final,
                             total_results = payload_len final,
                             processing_time = response_time env - start_time env,
                             sources_queried = sources,
                             cache_hit = False,
                             resp_timestamp = utcnow_response env\<rparr>
                      in case cache_set (cache st1) cache_key response None (cache_time env) of
                           Inl e \<Rightarrow> (Inl e, st1)
                         | Inr cache2 \<Rightarrow>
                             (let st2 = st1\<lparr>cache := cache2\<rparr>;
                                  (stats1, raised) =
                                    update_stats mode sources (stats_time env - start_time env)
                                      (stats st2);
                                  st3 = st2\<lparr>stats := stats1\<rparr>
                              in case raised of
                                   Some e \<Rightarrow> (Inl e, st3)
                                 | None \<Rightarrow> (Inr response, st3)))))"

section \<open>Initial state, readers and sample inputs\<close>

text \<open>\<open>QueryStats()\<close> and \<open>QueryOrchestrator.__init__\<close> with the cache settings of
  \<open>settings.CACHE_CONFIG["query_cache"]\<close>.\<close>

definition initial_stats :: QueryStats where
  "initial_stats =
     \<lparr>total_queries = 0, queries_by_mode = Map.empty, queries_by_source = Map.empty,
      average_latency = 0, cache_hit_rate = 0, error_rate = 0\<rparr>"

definition initial_orchestrator :: orchestrator where
  "initial_orchestrator =
     \<lparr>cache = QueryCache_init 300 1000, stats = initial_stats, adapter_calls = []\<rparr>"

text \<open>A counter of the statistics, read as \<open>d.get(key, 0)\<close>.\<close>

definition mode_count :: "QueryStats \<Rightarrow> QueryMode \<Rightarrow> int" where
  "mode_count s m = (case queries_by_mode s m of None \<Rightarrow> 0 | Some c \<Rightarrow> c)"

definition source_count :: "QueryStats \<Rightarrow> string \<Rightarrow> int" where
  "source_count s src = (case queries_by_source s src of None \<Rightarrow> 0 | Some c \<Rightarrow> c)"

text \<open>Two results that differ in their score at most.\<close>

definition same_but_score :: "QueryResult \<Rightarrow> QueryResult \<Rightarrow> bool" where
  "same_but_score r r' = (r'\<lparr>score := score r\<rparr> = r)"

text \<open>What one source contributes to a request: the outcome of \<open>_query_single_source\<close>.\<close>

definition source_outcome :: "environment \<Rightarrow> string \<Rightarrow> string \<Rightarrow> options option
                               \<Rightarrow> py_error + QueryResult list" where
  "source_outcome env src q opts = fst (query_single_source env src q opts [])"

definition successful_results :: "py_error + QueryResult list \<Rightarrow> QueryResult list" where
  "successful_results out = (case out of Inl e \<Rightarrow> [] | Inr rs \<Rightarrow> rs)"

text \<open>Sample inputs for the concrete instances below.\<close>

definition sample_result :: "string \<Rightarrow> string \<Rightarrow> string \<Rightarrow> real \<Rightarrow> real \<Rightarrow> QueryResult" where
  "sample_result i c src sc ts =
     \<lparr>result_id = i, content = c, source = src, score = sc, metadata = [], timestamp = ts,
      highlights = None\<rparr>"

definition sample_hash :: "string \<Rightarrow> int" where
  "sample_hash s = foldl (\<lambda>h c. h * 256 + int (of_char c)) 1 s"

definition sample_repr :: "py_value \<Rightarrow> string" where
  "sample_repr v =
     (case v of
        PyNone \<Rightarrow> ''None''
      | PyBool b \<Rightarrow> (if b then ''True'' else ''False'')
      | PyInt n \<Rightarrow> (if n = 5 then ''5'' else ''10'')
      | PyStr s \<Rightarrow> [CHR 0x27] @ s @ [CHR 0x27])"

definition sample_environment :: "(string \<times> adapter) list \<Rightarrow> environment" where
  "sample_environment ads =
     \<lparr>adapters = ads, py_repr = sample_repr, py_hash = sample_hash, set_order = remdups,
      start_time = 0, cache_time = 0, utcnow_result = 0, utcnow_rank = 0,
      response_time = 1, utcnow_response = 1, stats_time = 1\<rparr>"

definition failing_adapter :: adapter where
  "failing_adapter i q opts = Inl TimeoutError"

definition one_hit_adapter :: adapter where
  "one_hit_adapter i q opts =
     Inr [\<lparr>raw_id = Some ''m1'', raw_content = Some ''meeting notes'', raw_score = Some 0.5,
           raw_metadata = None, raw_highlights = None\<rparr>]"

definition sample_response :: QueryResponse where
  "sample_response =
     \<lparr>resp_query = ''hello'', resp_mode = UNIFIED, results = Ranked [], total_results = 0,
      processing_time = 1, sources_queried = [], cache_hit = False, resp_timestamp = 1\<rparr>"

text \<open>\<open>n\<close> \<open>set\<close> calls at time 0 with \<open>n\<close> different keys and no \<open>ttl\<close> argument.\<close>

definition fresh_keys :: "nat \<Rightarrow> (string \<times> QueryResponse \<times> real option \<times> real) list" where
  "fresh_keys n = map (\<lambda>i. (replicate i CHR ''k'', sample_response, None, 0)) [0..<n]"

section \<open>Deduplication\<close>

lemma first_occurrences_subset: "set (first_occurrences key xs) \<subseteq> set xs"
  by (induction key xs rule: first_occurrences.induct) auto

lemma first_occurrences_keys_distinct: "distinct (map key (first_occurrences key xs))"
proof (induction key xs rule: first_occurrences.induct)
  case (1 key)
  then show ?case by simp
next
  case (2 key x xs)
  have "set (first_occurrences key (filter (\<lambda>y. key y \<noteq> key x) xs))
          \<subseteq> set (filter (\<lambda>y. key y \<noteq> key x) xs)"
    by (rule first_occurrences_subset)
  then have "key x \<notin> key ` set (first_occurrences key (filter (\<lambda>y. key y \<noteq> key x) xs))"
    by auto
  with 2 show ?case by simp
qed

lemma first_occurrences_fixed: "distinct (map key xs) \<Longrightarrow> first_occurrences key xs = xs"
proof (induction xs)
  case Nil
  then show ?case by simp
next
  case (Cons x xs)
  from Cons.prems have "key x \<notin> key ` set xs"
    by simp
  then have "\<forall>y\<in>set xs. key y \<noteq> key x"
    by (metis imageI)
  then have "filter (\<lambda>y. key y \<noteq> key x) xs = xs"
    by (simp add: filter_id_conv)
  with Cons show ?case by simp
qed

lemma first_occurrences_cong:
  "(\<And>x y. x \<in> set xs \<Longrightarrow> y \<in> set xs \<Longrightarrow> (k1 x = k1 y) = (k2 x = k2 y))
     \<Longrightarrow> first_occurrences k1 xs = first_occurrences k2 xs"
proof (induction k1 xs rule: first_occurrences.induct)
  case (1 key)
  then show ?case by simp
next
  case (2 key x xs)
  have f: "filter (\<lambda>y. key y \<noteq> key x) xs = filter (\<lambda>y. k2 y \<noteq> k2 x) xs"
    using 2(2) by (intro filter_cong) auto
  have "first_occurrences key (filter (\<lambda>y. key y \<noteq> key x) xs)
          = first_occurrences k2 (filter (\<lambda>y. key y \<noteq> key x) xs)"
    using 2(2) by (intro 2(1)) auto
  with f show ?case by simp
qed

text \<open>The loop invariant: the results kept so far, followed by the first occurrences
  among the results whose hash has not been seen.\<close>

lemma dedup_loop_first_occurrences:
  "dedup_loop h rs seen acc
     = acc @ first_occurrences (\<lambda>r. h (normalized_content r))
               (filter (\<lambda>r. h (normalized_content r) \<notin> seen) rs)"
proof (induction rs arbitrary: seen acc)
  case Nil
  then show ?case by simp
next
  case (Cons r rs)
  let ?k = "\<lambda>r. h (normalized_content r)"
  show ?case
  proof (cases "?k r \<in> seen")
    case True
    then show ?thesis using Cons by (simp add: normalized_content_def)
  next
    case False
    have "filter (\<lambda>y. ?k y \<noteq> ?k r) (filter (\<lambda>y. ?k y \<notin> seen) rs)
            = filter (\<lambda>y. ?k y \<notin> insert (?k r) seen) rs"
      by (induction rs) auto
    with False show ?thesis
      using Cons[of "insert (?k r) seen" "acc @ [r]"] by (simp add: normalized_content_def Let_def)
  qed
qed

lemma deduplicate_results_eq:
  "deduplicate_results h rs = first_occurrences (\<lambda>r. h (normalized_content r)) rs"
  by (simp add: deduplicate_results_def dedup_loop_first_occurrences)

text \<open>
  Claim C6.  Deduplication is idempotent for every hash function.  Its output is the list
  of first occurrences, in input order, of the classes of results with the same hash of
  the normalized content; where the hash separates the normalized contents present in the
  input, these are the classes of results with the same normalized content (lower-cased,
  whitespace-trimmed), and every later member of a class is dropped.
\<close>

theorem deduplicate_results_idempotent_first:
  "deduplicate_results h (deduplicate_results h rs) = deduplicate_results h rs
   \<and> deduplicate_results h rs = first_occurrences (\<lambda>r. h (normalized_content r)) rs
   \<and> (inj_on h (normalized_content ` set rs)
        \<longrightarrow> deduplicate_results h rs = first_occurrences normalized_content rs)"
proof (intro conjI impI)
  show "deduplicate_results h (deduplicate_results h rs) = deduplicate_results h rs"
    by (simp add: deduplicate_results_eq first_occurrences_fixed first_occurrences_keys_distinct)
next
  show "deduplicate_results h rs = first_occurrences (\<lambda>r. h (normalized_content r)) rs"
    by (rule deduplicate_results_eq)
next
  assume inj: "inj_on h (normalized_content ` set rs)"
  have "first_occurrences (\<lambda>r. h (normalized_content r)) rs
          = first_occurrences normalized_content rs"
    by (rule first_occurrences_cong) (use inj in \<open>auto dest: inj_onD\<close>)
  then show "deduplicate_results h rs = first_occurrences normalized_content rs"
    by (simp add: deduplicate_results_eq)
qed

theorem deduplicate_results_witness:
  "deduplicate_results sample_hash
     [sample_result ''a'' ''Hello '' ''cognee'' 0.9 0, sample_result ''b'' '' hello'' ''memos'' 0.8 0,
      sample_result ''c'' ''x'' ''memos'' 0.7 0]
   = first_occurrences normalized_content
       [sample_result ''a'' ''Hello '' ''cognee'' 0.9 0, sample_result ''b'' '' hello'' ''memos'' 0.8 0,
        sample_result ''c'' ''x'' ''memos'' 0.7 0]
   \<and> first_occurrences normalized_content
       [sample_result ''a'' ''Hello '' ''cognee'' 0.9 0, sample_result ''b'' '' hello'' ''memos'' 0.8 0,
        sample_result ''c'' ''x'' ''memos'' 0.7 0]
     = [sample_result ''a'' ''Hello '' ''cognee'' 0.9 0, sample_result ''c'' ''x'' ''memos'' 0.7 0]"
proof -
  let ?rs = "[sample_result ''a'' ''Hello '' ''cognee'' 0.9 0,
              sample_result ''b'' '' hello'' ''memos'' 0.8 0,
              sample_result ''c'' ''x'' ''memos'' 0.7 0]"
  have n: "normalized_content ` set ?rs = {''hello'', ''x''}"
    by (simp add: normalized_content_def sample_result_def strip_def lower_def lower_char_def
        isspace_def)
  have "inj_on sample_hash {''hello'', ''x''}"
    by (simp add: sample_hash_def)
  with n have "inj_on sample_hash (normalized_content ` set ?rs)"
    by simp
  then have "deduplicate_results sample_hash ?rs = first_occurrences normalized_content ?rs"
    using deduplicate_results_idempotent_first[of sample_hash ?rs] by blast
  moreover have "first_occurrences normalized_content ?rs
      = [sample_result ''a'' ''Hello '' ''cognee'' 0.9 0, sample_result ''c'' ''x'' ''memos'' 0.7 0]"
    by (simp add: normalized_content_def sample_result_def strip_def lower_def lower_char_def
        isspace_def)
  ultimately show ?thesis by simp
qed

section \<open>Cache key\<close>

lemma sort_permutation: "mset xs = mset ys \<Longrightarrow> sort xs = sort (ys :: string list)"
  by (rule properties_for_sort) simp_all

lemma filter_key_singleton:
  "distinct (map f xs) \<Longrightarrow> k \<in> set xs \<Longrightarrow> filter (\<lambda>x. f k = f x) xs = [k]"
proof (induction xs)
  case Nil
  then show ?case by simp
next
  case (Cons x xs)
  show ?case
  proof (cases "k = x")
    case True
    from Cons.prems have "\<forall>y\<in>set xs. f x \<noteq> f y"
      by (metis distinct.simps(2) imageI list.simps(9) list.set_map)
    then have "filter (\<lambda>y. f x = f y) xs = []"
      by (simp add: filter_empty_conv)
    with True show ?thesis by simp
  next
    case False
    with Cons.prems have k: "k \<in> set xs" by simp
    with Cons.prems have "f k \<noteq> f x"
      by (metis distinct.simps(2) imageI list.simps(9) list.set_map)
    with Cons k show ?thesis by simp
  qed
qed

text \<open>Two insertion orders of one dictionary sort to the same list of items.\<close>

lemma sort_key_dict:
  fixes d1 d2 :: "(string \<times> 'v) list"
  assumes "distinct (map fst d1)" "distinct (map fst d2)" "map_of d1 = map_of d2"
  shows "sort_key fst d1 = sort_key fst d2"
proof -
  have s: "set d1 = set d2"
    using assms by (simp add: map_of_inject_set)
  have d: "distinct d1" "distinct d2"
    using assms(1,2) by (auto simp: distinct_map)
  have m: "mset d1 = mset d2"
    using s d by (simp add: set_eq_iff_mset_eq_distinct)
  show ?thesis
  proof (rule properties_for_sort_key)
    show "mset (sort_key fst d2) = mset d1" using m by simp
    show "sorted (map fst (sort_key fst d2))" by simp
    fix k assume "k \<in> set (sort_key fst d2)"
    then have k: "k \<in> set d2" "k \<in> set d1" using s by simp_all
    have "distinct (map fst (sort_key fst d2))"
      using assms(2) by (simp add: distinct_map)
    then have "filter (\<lambda>x. fst k = fst x) (sort_key fst d2) = [k]"
      using k by (intro filter_key_singleton) simp_all
    moreover have "filter (\<lambda>x. fst k = fst x) d1 = [k]"
      using assms(1) k by (intro filter_key_singleton)
    ultimately show "filter (\<lambda>x. fst k = fst x) (sort_key fst d2) = filter (\<lambda>x. fst k = fst x) d1"
      by simp
  qed
qed

text \<open>
  Claim C5.  Take two requests with the same query text and mode, whose explicit source
  lists are reorderings of each other (equal as multisets) and whose options are the same
  dictionary entered in two key orders (association lists with distinct keys and the same
  lookups).  For every \<open>repr\<close> the two cache keys are the same string.
\<close>

theorem generate_cache_key_canonical:
  assumes "mset s1 = mset s2"
    and "distinct (map fst o1)" and "distinct (map fst o2)" and "map_of o1 = map_of o2"
  shows "generate_cache_key repr_v q mode (Some s1) (Some o1)
           = generate_cache_key repr_v q mode (Some s2) (Some o2)"
proof -
  have "set o1 = set o2"
    using assms by (simp add: map_of_inject_set)
  then have e: "(o1 = []) = (o2 = [])"
    by (metis set_empty)
  show ?thesis
    using sort_permutation[OF assms(1)] sort_key_dict[OF assms(2,3,4)] e
    by (simp add: generate_cache_key_def)
qed

theorem generate_cache_key_witness:
  "generate_cache_key sample_repr ''notes'' SMART (Some [''memos'', ''cognee''])
       (Some [(''max_results'', PyInt 5), (''deduplicate'', PyBool True)])
     = generate_cache_key sample_repr ''notes'' SMART (Some [''cognee'', ''memos''])
         (Some [(''deduplicate'', PyBool True), (''max_results'', PyInt 5)])
   \<and> generate_cache_key sample_repr ''notes'' SMART (Some [''cognee'', ''memos''])
         (Some [(''deduplicate'', PyBool True), (''max_results'', PyInt 5)])
     = ''notes:QueryMode.SMART:cognee,memos:[('' @ [CHR 0x27] @ ''deduplicate'' @ [CHR 0x27] @ '', True), (''
         @ [CHR 0x27] @ ''max_results'' @ [CHR 0x27] @ '', 5)]''"
proof -
  have m: "mset [''memos'', ''cognee''] = mset [''cognee'', ''memos'']"
    by (simp add: add.commute)
  have l: "map_of [(''max_results'', PyInt 5), (''deduplicate'', PyBool True)]
             = map_of [(''deduplicate'', PyBool True), (''max_results'', PyInt 5)]"
    by (rule ext) simp
  have "generate_cache_key sample_repr ''notes'' SMART (Some [''memos'', ''cognee''])
          (Some [(''max_results'', PyInt 5), (''deduplicate'', PyBool True)])
        = generate_cache_key sample_repr ''notes'' SMART (Some [''cognee'', ''memos''])
            (Some [(''deduplicate'', PyBool True), (''max_results'', PyInt 5)])"
    using m l by (intro generate_cache_key_canonical) simp_all
  moreover have "generate_cache_key sample_repr ''notes'' SMART (Some [''cognee'', ''memos''])
         (Some [(''deduplicate'', PyBool True), (''max_results'', PyInt 5)])
     = ''notes:QueryMode.SMART:cognee,memos:[('' @ [CHR 0x27] @ ''deduplicate'' @ [CHR 0x27] @ '', True), (''
         @ [CHR 0x27] @ ''max_results'' @ [CHR 0x27] @ '', 5)]''"
    by (simp add: generate_cache_key_def items_str_def sample_repr_def)
  ultimately show ?thesis by simp
qed

section \<open>Statistics\<close>

lemma foldl_count_source:
  "(case foldl count_source m srcs src of None \<Rightarrow> 0 | Some c \<Rightarrow> c)
     = (case m src of None \<Rightarrow> 0 | Some c \<Rightarrow> c) + int (count_list srcs src)"
proof (induction srcs arbitrary: m)
  case Nil
  then show ?case by simp
next
  case (Cons a srcs)
  have "(case count_source m a src of None \<Rightarrow> 0 | Some c \<Rightarrow> c)
          = (case m src of None \<Rightarrow> 0 | Some c \<Rightarrow> c) + (if a = src then 1 else 0)"
    by (simp add: count_source_def)
  then show ?case
    using Cons[of "count_source m a"] by simp
qed

lemma moving_average:
  fixes avg latency :: real and n :: int
  assumes "0 < n"
  shows "(avg * real_of_int (n - 1) + latency) / real_of_int n
           = avg + (latency - avg) / real_of_int n"
proof -
  have "real_of_int n \<noteq> 0" using assms by simp
  then show ?thesis by (simp add: field_simps)
qed

text \<open>
  Claim C9, as it is written, fails where a source is listed twice in the queried source
  list: the loop over the list adds one per entry, so the counter of that source grows by
  two.  Here \<open>cognee\<close> is listed twice and its counter goes from 0 to 2.
\<close>

theorem update_stats_repeated_source:
  "source_count initial_stats ''cognee'' = 0
   \<and> source_count (fst (update_stats UNIFIED [''cognee'', ''cognee''] 1 initial_stats)) ''cognee'' = 2"
  by (simp add: update_stats_def Let_def source_count_def initial_stats_def count_source_def)

text \<open>
  Claim C9, amended.  For every prior average, latency and prior count
  \<open>total_queries \<ge> 0\<close>, the update raises nothing, adds exactly 1 to \<open>total_queries\<close>
  and to the counter of the queried mode, adds to the counter of every source the number
  of times the source occurs in the queried source list (1 for a source listed once, 0
  for a source not listed), and sets the average to
  \<open>avg + (latency - avg) / n\<close> for the new count \<open>n\<close>, over the reals.
\<close>

theorem update_stats_effect:
  assumes "0 \<le> total_queries s"
  shows "snd (update_stats mode srcs latency s) = None
    \<and> total_queries (fst (update_stats mode srcs latency s)) = total_queries s + 1
    \<and> mode_count (fst (update_stats mode srcs latency s)) mode = mode_count s mode + 1
    \<and> (\<forall>src. source_count (fst (update_stats mode srcs latency s)) src
                = source_count s src + int (count_list srcs src))
    \<and> average_latency (fst (update_stats mode srcs latency s))
        = average_latency s + (latency - average_latency s) / real_of_int (total_queries s + 1)"
proof -
  have n: "0 < total_queries s + 1" using assms by simp
  then have nz: "total_queries s + 1 \<noteq> 0" by simp
  show ?thesis
    using nz moving_average[OF n, of "average_latency s" latency]
    by (simp add: update_stats_def Let_def mode_count_def source_count_def foldl_count_source)
qed

theorem update_stats_witness:
  "snd (update_stats SMART [''cognee'', ''memos''] 3 initial_stats) = None
   \<and> total_queries (fst (update_stats SMART [''cognee'', ''memos''] 3 initial_stats)) = 1
   \<and> mode_count (fst (update_stats SMART [''cognee'', ''memos''] 3 initial_stats)) SMART = 1
   \<and> source_count (fst (update_stats SMART [''cognee'', ''memos''] 3 initial_stats)) ''cognee'' = 1
   \<and> source_count (fst (update_stats SMART [''cognee'', ''memos''] 3 initial_stats)) ''memento'' = 0
   \<and> average_latency (fst (update_stats SMART [''cognee'', ''memos''] 3 initial_stats)) = 3"
proof -
  have "0 \<le> total_queries initial_stats"
    by (simp add: initial_stats_def)
  from update_stats_effect[OF this, of SMART "[''cognee'', ''memos'']" 3]
  show ?thesis
    by (simp add: initial_stats_def mode_count_def source_count_def)
qed

section \<open>Hybrid ranking\<close>

lemma get_source_trust_bounds: "0 \<le> get_source_trust src \<and> get_source_trust src \<le> 1"
  by (simp add: get_source_trust_def dict_get_def)

lemma recency_decay_bounds:
  fixes ts now :: real
  assumes "ts \<le> now"
  shows "0 \<le> exp (- ((now - ts) / 3600) / 168) \<and> exp (- ((now - ts) / 3600) / 168) \<le> 1"
proof -
  have "- ((now - ts) / 3600) / 168 \<le> 0"
    using assms by simp
  then show ?thesis by simp
qed

lemma convex_bound:
  fixes a b c d w1 w2 w3 w4 :: real
  assumes "0 \<le> a" "a \<le> 1" "0 \<le> b" "b \<le> 1" "0 \<le> c" "c \<le> 1" "0 \<le> d" "d \<le> 1"
    and "0 \<le> w1" "0 \<le> w2" "0 \<le> w3" "0 \<le> w4" and "w1 + w2 + w3 + w4 = 1"
  shows "0 \<le> a * w1 + b * w2 + c * w3 + d * w4 \<and> a * w1 + b * w2 + c * w3 + d * w4 \<le> 1"
proof -
  have "a * w1 \<le> w1" "b * w2 \<le> w2" "c * w3 \<le> w3" "d * w4 \<le> w4"
    using assms by (simp_all add: mult_left_le_one_le)
  moreover have "0 \<le> a * w1" "0 \<le> b * w2" "0 \<le> c * w3" "0 \<le> d * w4"
    using assms by simp_all
  ultimately show ?thesis using assms(13) by linarith
qed

lemma composite_score_bounded:
  assumes "weights ''relevance'' = Some w1" "weights ''recency'' = Some w2"
    and "weights ''source_trust'' = Some w3" "weights ''user_preference'' = Some w4"
    and "0 \<le> w1" "0 \<le> w2" "0 \<le> w3" "0 \<le> w4" and "w1 + w2 + w3 + w4 = 1"
    and "0 \<le> score r" "score r \<le> 1" "timestamp r \<le> now"
  shows "\<exists>s. composite_score now weights r = Inr s \<and> 0 \<le> s \<and> s \<le> 1"
proof -
  let ?s = "score r * w1 + exp (- ((now - timestamp r) / 3600) / 168) * w2
              + get_source_trust (source r) * w3 + 0.5 * w4"
  have "composite_score now weights r = Inr ?s"
    using assms(1-4) by (simp add: composite_score_def weight_def bind_err_def)
  moreover have "0 \<le> ?s \<and> ?s \<le> 1"
    using assms(5-11) recency_decay_bounds[OF assms(12)] get_source_trust_bounds[of "source r"]
    by (intro convex_bound) simp_all
  ultimately show ?thesis by blast
qed

lemma score_all_bounded:
  assumes "weights ''relevance'' = Some w1" "weights ''recency'' = Some w2"
    and "weights ''source_trust'' = Some w3" "weights ''user_preference'' = Some w4"
    and "0 \<le> w1" "0 \<le> w2" "0 \<le> w3" "0 \<le> w4" and "w1 + w2 + w3 + w4 = 1"
    and "\<forall>r\<in>set rs. 0 \<le> score r \<and> score r \<le> 1 \<and> timestamp r \<le> now"
  shows "\<exists>scored. score_all now weights rs = Inr scored
           \<and> (\<forall>r\<in>set scored. 0 \<le> score r \<and> score r \<le> 1)"
  using assms(10)
proof (induction rs)
  case Nil
  then show ?case by simp
next
  case (Cons r rs)
  then obtain scored where sc: "score_all now weights rs = Inr scored"
      "\<forall>r\<in>set scored. 0 \<le> score r \<and> score r \<le> 1"
    by auto
  from Cons.prems obtain s where s: "composite_score now weights r = Inr s" "0 \<le> s" "s \<le> 1"
    using composite_score_bounded[OF assms(1-9), of r now] by auto
  show ?case using sc s by (simp add: bind_err_def)
qed

text \<open>
  Claim C7.  Let the weight map hold the four weights the engine reads, each non-negative,
  with sum 1, and let every result have a relevance score in [0, 1] and an age of at least
  0 hours (so that the recency decay \<open>exp (- age_hours / 168)\<close> lies in [0, 1]); the
  source trust of the table and the preference constant 0.5 lie in [0, 1] by themselves.
  Then hybrid ranking returns, and every score it assigns lies in [0, 1].  Floats are read
  as real numbers.
\<close>

theorem rank_hybrid_score_bound:
  assumes "weights ''relevance'' = Some w1" "weights ''recency'' = Some w2"
    and "weights ''source_trust'' = Some w3" "weights ''user_preference'' = Some w4"
    and "0 \<le> w1" "0 \<le> w2" "0 \<le> w3" "0 \<le> w4" and "w1 + w2 + w3 + w4 = 1"
    and "\<forall>r\<in>set rs. 0 \<le> score r \<and> score r \<le> 1 \<and> timestamp r \<le> now"
  shows "\<exists>ranked. rank_hybrid now rs weights = Inr ranked
           \<and> length ranked = length rs
           \<and> (\<forall>r\<in>set ranked. 0 \<le> score r \<and> score r \<le> 1)"
proof -
  obtain scored where sc: "score_all now weights rs = Inr scored"
      "\<forall>r\<in>set scored. 0 \<le> score r \<and> score r \<le> 1"
    using score_all_bounded[OF assms] by blast
  have "length scored = length rs"
    using sc(1)
  proof (induction rs arbitrary: scored)
    case Nil
    then show ?case by simp
  next
    case (Cons r rs)
    then show ?case by (auto simp: bind_err_def split: sum.splits)
  qed
  with sc show ?thesis
    by (simp add: rank_hybrid_def bind_err_def sorted_desc_def)
qed

theorem rank_hybrid_score_bound_witness:
  "\<exists>ranked. rank_hybrid 7200 [sample_result ''a'' ''x'' ''cognee'' 1 0,
                               sample_result ''b'' ''y'' ''memento'' 0 3600] RANKING_WEIGHTS
               = Inr ranked
            \<and> length ranked = 2
            \<and> list_all (\<lambda>r. 0 \<le> score r \<and> score r \<le> 1) ranked"
proof -
  have "\<exists>ranked. rank_hybrid 7200 [sample_result ''a'' ''x'' ''cognee'' 1 0,
                               sample_result ''b'' ''y'' ''memento'' 0 3600] RANKING_WEIGHTS
               = Inr ranked
            \<and> length ranked = length [sample_result ''a'' ''x'' ''cognee'' 1 0,
                               sample_result ''b'' ''y'' ''memento'' 0 3600]
            \<and> (\<forall>r\<in>set ranked. 0 \<le> score r \<and> score r \<le> 1)"
    by (rule rank_hybrid_score_bound[of RANKING_WEIGHTS "0.4" "0.2" "0.2" "0.2"])
       (simp_all add: RANKING_WEIGHTS_def sample_result_def)
  then obtain ranked where
      "rank_hybrid 7200 [sample_result ''a'' ''x'' ''cognee'' 1 0,
                         sample_result ''b'' ''y'' ''memento'' 0 3600] RANKING_WEIGHTS = Inr ranked"
      "length ranked = 2" "\<forall>r\<in>set ranked. 0 \<le> score r \<and> score r \<le> 1"
    by auto
  then show ?thesis
    by (auto simp: list_all_iff)
qed

lemma sorted_desc_stable:
  "filter (\<lambda>r. k r = v) (sorted_desc k xs) = filter (\<lambda>r. k r = v) xs"
proof -
  have "filter (\<lambda>r. - k r = - v) (sort_key (\<lambda>x. - k x) xs) = filter (\<lambda>r. - k r = - v) xs"
    by (rule sort_key_stable)
  then show ?thesis by (simp add: sorted_desc_def)
qed

lemma sorted_desc_descending: "sorted (rev (map k (sorted_desc k xs)))"
proof -
  have "sorted (map (\<lambda>x. - k x) (sort_key (\<lambda>x. - k x) xs))"
    by (rule sorted_sort_key)
  then have "sorted (map uminus (map k (sorted_desc k xs)))"
    by (simp add: sorted_desc_def comp_def)
  then show ?thesis
    by (simp add: sorted_wrt_rev sorted_wrt_map)
qed

lemma score_all_shape:
  "score_all now weights rs = Inr scored \<Longrightarrow> list_all2 same_but_score rs scored"
proof (induction rs arbitrary: scored)
  case Nil
  then show ?case by simp
next
  case (Cons r rs)
  then show ?case
    by (auto simp: bind_err_def same_but_score_def split: sum.splits)
qed

lemma composite_first:
  "composite_score now RANKING_WEIGHTS
     \<lparr>result_id = i, content = c, source = ''cognee'', score = 0.9, metadata = m,
      timestamp = now, highlights = h\<rparr> = Inr 0.84"
  by (simp add: composite_score_def RANKING_WEIGHTS_def weight_def bind_err_def
      get_source_trust_def dict_get_def)

lemma composite_second:
  "composite_score now RANKING_WEIGHTS
     \<lparr>result_id = i, content = c, source = ''archive'', score = 0.8, metadata = m,
      timestamp = now - 168 * 3600, highlights = h\<rparr> = Inr (0.52 + exp (- 1) * 0.2)"
  by (simp add: composite_score_def RANKING_WEIGHTS_def weight_def bind_err_def
      get_source_trust_def dict_get_def)

lemma second_less_first: "0.52 + exp (- 1) * 0.2 < (0.84 :: real)"
proof -
  have "exp (- 1 :: real) < 1" by simp
  then have "5 * exp (- 1 :: real) < 8" by linarith
  then show ?thesis by simp
qed

lemma rank_pair:
  assumes "score_all now w [a, b] = Inr [a', b']" and "score b' < score a'"
  shows "rank_hybrid now [a, b] w = Inr [a', b']"
  using assms by (simp add: rank_hybrid_def bind_err_def sorted_desc_def)

lemma rank_pair_swapped:
  assumes "score_all now w [b, a] = Inr [b', a']" and "score b' < score a'"
  shows "rank_hybrid now [b, a] w = Inr [a', b']"
  using assms by (simp add: rank_hybrid_def bind_err_def sorted_desc_def)

text \<open>
  Claim C8.  With the default weights 0.4/0.2/0.2/0.2, take a result with score 0.9, age 0
  hours and source \<open>cognee\<close> (trust 0.9), and a result with score 0.8, age 168 hours and
  a source outside the trust table (trust 0.5).  The first gets the composite score 0.84,
  the second \<open>0.52 + 0.2 * exp (- 1)\<close>, which is strictly smaller, and hybrid ranking
  puts the first result first whichever way round the two are given.  Whenever hybrid
  ranking returns, its output is the list of input results with their composite scores,
  in descending order of score, and for every score value the results with that score
  stand in the order of the input (the sort is stable).
\<close>

theorem rank_hybrid_ordering:
  fixes now :: real and i1 c1 m1 h1 i2 c2 m2 h2
  defines "fresh \<equiv> \<lparr>result_id = i1, content = c1, source = ''cognee'', score = 0.9,
                       metadata = m1, timestamp = now, highlights = h1\<rparr>"
    and "old \<equiv> \<lparr>result_id = i2, content = c2, source = ''archive'', score = 0.8,
                   metadata = m2, timestamp = now - 168 * 3600, highlights = h2\<rparr>"
  shows "composite_score now RANKING_WEIGHTS fresh = Inr 0.84
    \<and> composite_score now RANKING_WEIGHTS old = Inr (0.52 + exp (- 1) * 0.2)
    \<and> 0.52 + exp (- 1) * 0.2 < (0.84 :: real)
    \<and> rank_hybrid now [fresh, old] RANKING_WEIGHTS
          = Inr [fresh\<lparr>score := 0.84\<rparr>, old\<lparr>score := 0.52 + exp (- 1) * 0.2\<rparr>]
    \<and> rank_hybrid now [old, fresh] RANKING_WEIGHTS
          = Inr [fresh\<lparr>score := 0.84\<rparr>, old\<lparr>score := 0.52 + exp (- 1) * 0.2\<rparr>]
    \<and> (\<forall>t rs weights ranked.
          rank_hybrid t rs weights = Inr ranked \<longrightarrow>
            (\<exists>scored. score_all t weights rs = Inr scored
               \<and> list_all2 same_but_score rs scored
               \<and> sorted (rev (map score ranked))
               \<and> (\<forall>v. filter (\<lambda>r. score r = v) ranked = filter (\<lambda>r. score r = v) scored)))"
proof -
  have f: "composite_score now RANKING_WEIGHTS fresh = Inr 0.84"
    unfolding fresh_def by (rule composite_first)
  have s: "composite_score now RANKING_WEIGHTS old = Inr (0.52 + exp (- 1) * 0.2)"
    unfolding old_def by (rule composite_second)
  have 1: "rank_hybrid now [fresh, old] RANKING_WEIGHTS
          = Inr [fresh\<lparr>score := 0.84\<rparr>, old\<lparr>score := 0.52 + exp (- 1) * 0.2\<rparr>]"
    using second_less_first by (intro rank_pair) (simp_all add: f s bind_err_def)
  have 2: "rank_hybrid now [old, fresh] RANKING_WEIGHTS
          = Inr [fresh\<lparr>score := 0.84\<rparr>, old\<lparr>score := 0.52 + exp (- 1) * 0.2\<rparr>]"
    using second_less_first by (intro rank_pair_swapped) (simp_all add: f s bind_err_def)
  have 3: "\<exists>scored. score_all t weights rs = Inr scored
               \<and> list_all2 same_but_score rs scored
               \<and> sorted (rev (map score ranked))
               \<and> (\<forall>v. filter (\<lambda>r. score r = v) ranked = filter (\<lambda>r. score r = v) scored)"
    if "rank_hybrid t rs weights = Inr ranked" for t rs weights ranked
  proof -
    from that obtain scored where sc: "score_all t weights rs = Inr scored"
      and r: "ranked = sorted_desc score scored"
      by (auto simp: rank_hybrid_def bind_err_def split: sum.splits)
    show ?thesis
      using sc r score_all_shape[OF sc] sorted_desc_descending[of score scored]
        sorted_desc_stable[of score _ scored]
      by auto
  qed
  show ?thesis using f s 1 2 3 second_less_first by blast
qed

theorem rank_hybrid_ordering_witness:
  "rank_hybrid 0 [sample_result ''a'' ''x'' ''memos'' 0.5 0, sample_result ''b'' ''y'' ''memos'' 0.5 0]
       RANKING_WEIGHTS
     = Inr [sample_result ''a'' ''x'' ''memos'' 0.66 0, sample_result ''b'' ''y'' ''memos'' 0.66 0]
   \<and> (\<exists>scored. score_all 0 RANKING_WEIGHTS
                  [sample_result ''a'' ''x'' ''memos'' 0.5 0, sample_result ''b'' ''y'' ''memos'' 0.5 0]
                = Inr scored
              \<and> filter (\<lambda>r. score r = 0.66)
                   [sample_result ''a'' ''x'' ''memos'' 0.66 0, sample_result ''b'' ''y'' ''memos'' 0.66 0]
                 = filter (\<lambda>r. score r = 0.66) scored)"
proof -
  have r: "rank_hybrid 0 [sample_result ''a'' ''x'' ''memos'' 0.5 0,
                          sample_result ''b'' ''y'' ''memos'' 0.5 0] RANKING_WEIGHTS
     = Inr [sample_result ''a'' ''x'' ''memos'' 0.66 0, sample_result ''b'' ''y'' ''memos'' 0.66 0]"
    by (simp add: rank_hybrid_def sorted_desc_def composite_score_def RANKING_WEIGHTS_def
        weight_def bind_err_def get_source_trust_def dict_get_def sample_result_def)
  from rank_hybrid_ordering[of 0] r show ?thesis
    by blast
qed

section \<open>Fan-out and partial failure\<close>

text \<open>
  The outcome of a source call does not depend on the calls recorded before it, and the
  fan-out of unified mode returns the results of the sources whose call succeeded,
  concatenated in source order.  Post-processing returns for every options dictionary
  whose \<open>max_results\<close> is not a string, and each result it returns is a result of the
  fan-out up to its score.  On a cache miss \<open>query\<close> then hands the response to the
  cache: in unified mode it returns the response when the result list is empty, and the
  \<open>TypeError\<close> of the serializer otherwise.
\<close>

lemma search_attempt_outcome:
  "fst (search_attempt env src q opts i calls) = fst (search_attempt env src q opts i [])"
  by (simp add: search_attempt_def split: option.splits)

lemma retry_from_outcome:
  "fst (retry_from n i (search_attempt env src q opts) calls)
     = fst (retry_from n i (search_attempt env src q opts) [])"
proof (induction n arbitrary: i calls)
  case 0
  then show ?case by simp
next
  case (Suc n)
  obtain out c1 where a: "search_attempt env src q opts i calls = (out, c1)"
    by (cases "search_attempt env src q opts i calls")
  obtain out' c2 where b: "search_attempt env src q opts i [] = (out', c2)"
    by (cases "search_attempt env src q opts i []")
  have "out = out'"
    using search_attempt_outcome[of env src q opts i calls] a b by simp
  then show ?case
    using a b Suc[of "Suc i" c1] Suc[of "Suc i" c2]
    by (cases out') simp_all
qed

lemma query_single_source_outcome:
  "fst (query_single_source env src q opts calls) = source_outcome env src q opts"
  unfolding query_single_source_def source_outcome_def by (rule retry_from_outcome)

lemma gather_outcomes:
  "fst (gather env q opts srcs calls) = map (\<lambda>s. source_outcome env s q opts) srcs"
proof (induction srcs arbitrary: calls)
  case Nil
  then show ?case by simp
next
  case (Cons s srcs)
  obtain out c1 where a: "query_single_source env s q opts calls = (out, c1)"
    by (cases "query_single_source env s q opts calls")
  then have o: "out = source_outcome env s q opts"
    using query_single_source_outcome[of env s q opts calls] by simp
  obtain outs c2 where b: "gather env q opts srcs c1 = (outs, c2)"
    by (cases "gather env q opts srcs c1")
  then have "outs = map (\<lambda>s. source_outcome env s q opts) srcs"
    using Cons[of c1] by simp
  with a b o show ?case by simp
qed

lemma extend_successes:
  "foldl (\<lambda>all_results source_results.
            case source_results of Inl e \<Rightarrow> all_results | Inr rs \<Rightarrow> all_results @ rs) acc outs
     = acc @ concat (map successful_results outs)"
proof (induction outs arbitrary: acc)
  case Nil
  then show ?case by simp
next
  case (Cons out outs)
  then show ?case by (cases out) (simp_all add: successful_results_def)
qed

lemma query_unified_results:
  "fst (query_unified env q srcs opts calls)
     = concat (map (\<lambda>s. successful_results (source_outcome env s q opts)) srcs)"
proof -
  obtain outs c1 where g: "gather env q opts srcs calls = (outs, c1)"
    by (cases "gather env q opts srcs calls")
  then have "outs = map (\<lambda>s. source_outcome env s q opts) srcs"
    using gather_outcomes[of env q opts srcs calls] by simp
  with g show ?thesis
    by (simp add: query_unified_def extend_successes comp_def)
qed

lemma score_all_default_weights:
  "\<exists>scored. score_all now RANKING_WEIGHTS rs = Inr scored"
proof (induction rs)
  case Nil
  then show ?case by simp
next
  case (Cons r rs)
  then obtain scored where "score_all now RANKING_WEIGHTS rs = Inr scored" by blast
  moreover have "\<exists>s. composite_score now RANKING_WEIGHTS r = Inr s"
    by (simp add: composite_score_def RANKING_WEIGHTS_def weight_def bind_err_def)
  ultimately show ?case by (auto simp: bind_err_def)
qed


lemma same_but_score_refl: "same_but_score r r"
  by (simp add: same_but_score_def)

lemma rank_total:
  "\<exists>ranked. rank now rs strategy (Some RANKING_WEIGHTS) = Inr ranked
      \<and> (\<forall>r\<in>set ranked. \<exists>r0\<in>set rs. same_but_score r0 r)"
proof -
  obtain scored where sc: "score_all now RANKING_WEIGHTS rs = Inr scored"
    using score_all_default_weights by blast
  have "\<forall>r\<in>set scored. \<exists>r0\<in>set rs. same_but_score r0 r"
    using score_all_shape[OF sc]
    by (metis (no_types, lifting) in_set_conv_nth list_all2_conv_all_nth)
  then have h: "\<forall>r\<in>set (sorted_desc score scored). \<exists>r0\<in>set rs. same_but_score r0 r"
    by (simp add: sorted_desc_def)
  have p: "\<forall>r\<in>set (sorted_desc k rs). \<exists>r0\<in>set rs. same_but_score r0 r" for k
    using same_but_score_refl by (auto simp: sorted_desc_def)
  show ?thesis
    using sc h p[of score] p[of timestamp]
    by (simp add: rank_def rank_hybrid_def rank_by_relevance_def rank_by_recency_def bind_err_def)
qed

lemma slice_to_subset: "slice_to xs v = Inr ys \<Longrightarrow> set ys \<subseteq> set xs"
  by (cases v) (auto simp: slice_int_def dest: in_set_takeD split: if_splits)

lemma deduplicate_results_subset: "set (deduplicate_results h rs) \<subseteq> set rs"
  by (simp add: deduplicate_results_eq first_occurrences_subset)

lemma process_results_total:
  assumes "\<forall>s. dict_get opts ''max_results'' (PyInt 10) \<noteq> PyStr s"
  shows "\<exists>final. process_results env rs (Some opts) = Inr final
           \<and> (\<forall>r\<in>set final. \<exists>r0\<in>set rs. same_but_score r0 r)"
proof (cases "rs = []")
  case True
  then show ?thesis by (simp add: process_results_def)
next
  case False
  let ?rs1 = "if truthy (dict_get opts ''deduplicate'' (PyBool True))
              then deduplicate_results (py_hash env) rs else rs"
  have sub: "set ?rs1 \<subseteq> set rs"
    using deduplicate_results_subset by simp
  obtain ranked where r: "rank (utcnow_rank env) ?rs1
        (dict_get opts ''ranking_strategy'' (PyStr ''hybrid'')) (Some RANKING_WEIGHTS) = Inr ranked"
      and o: "\<forall>r\<in>set ranked. \<exists>r0\<in>set ?rs1. same_but_score r0 r"
    using rank_total by blast
  obtain final where f: "slice_to ranked (dict_get opts ''max_results'' (PyInt 10)) = Inr final"
    using assms by (cases "dict_get opts ''max_results'' (PyInt 10)") auto
  have "\<forall>r\<in>set final. \<exists>r0\<in>set rs. same_but_score r0 r"
    using slice_to_subset[OF f] o sub by (meson subsetD)
  moreover have "process_results env rs (Some opts) = Inr final"
    using False r f by (simp add: process_results_def options_get_def bind_err_def Let_def)
  ultimately show ?thesis by blast
qed

lemma update_stats_no_error: "0 \<le> total_queries s \<Longrightarrow> snd (update_stats mode srcs latency s) = None"
  by (simp add: update_stats_def Let_def)

lemma cache_miss:
  "backend_get (store c) key now = None
     \<Longrightarrow> cache_get c key now = (None, c\<lparr>misses := misses c + 1\<rparr>)"
  by (simp add: cache_get_def)

lemma query_unified_outcome:
  assumes "backend_get (store (cache st))
             (generate_cache_key (py_repr env) q UNIFIED srcs (Some opts)) (cache_time env) = None"
    and "0 \<le> total_queries (stats st)"
    and "\<forall>s. dict_get opts ''max_results'' (PyInt 10) \<noteq> PyStr s"
  shows "\<exists>final.
          process_results env
            (concat (map (\<lambda>s. successful_results (source_outcome env s q (Some opts)))
                       (resolve_sources env srcs))) (Some opts) = Inr final
          \<and> (\<forall>r\<in>set final.
                \<exists>r0\<in>set (concat (map (\<lambda>s. successful_results (source_outcome env s q (Some opts)))
                                      (resolve_sources env srcs))).
                  same_but_score r0 r)
          \<and> fst (query env q UNIFIED srcs (Some opts) st)
              = (if final = []
                 then Inr \<lparr>resp_query = q, resp_mode = UNIFIED, results = Ranked [],
                          total_results = 0,
                          processing_time = response_time env - start_time env,
                          sources_queried = resolve_sources env srcs, cache_hit = False,
                          resp_timestamp = utcnow_response env\<rparr>
                 else Inl TypeError)"
proof -
  let ?srcs = "resolve_sources env srcs"
  let ?all = "concat (map (\<lambda>s. successful_results (source_outcome env s q (Some opts))) ?srcs)"
  obtain rs c1 where u: "query_unified env q ?srcs (Some opts) (adapter_calls st) = (rs, c1)"
    by (cases "query_unified env q ?srcs (Some opts) (adapter_calls st)")
  then have rs: "rs = ?all"
    using query_unified_results[of env q ?srcs "Some opts" "adapter_calls st"] by simp
  obtain final where f: "process_results env ?all (Some opts) = Inr final"
      and o: "\<forall>r\<in>set final. \<exists>r0\<in>set ?all. same_but_score r0 r"
    using process_results_total[OF assms(3)] by blast
  have rm: "run_mode env q UNIFIED ?srcs (Some opts) (adapter_calls st) = (Inr (Ranked final), c1)"
    using u rs f by (simp add: run_mode_def bind_err_def)
  obtain s1 where us: "update_stats UNIFIED ?srcs (stats_time env - start_time env) (stats st) = (s1, None)"
    using update_stats_no_error[OF assms(2), of UNIFIED ?srcs "stats_time env - start_time env"]
    by (cases "update_stats UNIFIED ?srcs (stats_time env - start_time env) (stats st)") simp
  have "fst (query env q UNIFIED srcs (Some opts) st)
          = (if final = []
             then Inr \<lparr>resp_query = q, resp_mode = UNIFIED, results = Ranked [],
                      total_results = 0,
                      processing_time = response_time env - start_time env,
                      sources_queried = ?srcs, cache_hit = False,
                      resp_timestamp = utcnow_response env\<rparr>
             else Inl TypeError)"
    using cache_miss[OF assms(1)] rm us by (simp add: query_def cache_set_def Let_def)
  with f o show ?thesis by blast
qed

text \<open>
  Claim C4 does not hold of the code.  Of the two sources \<open>cognee\<close> fails at each of its
  three attempts and \<open>memento\<close> returns one result.  The fan-out isolates the failure:
  \<open>_query_unified\<close> returns exactly the result of \<open>memento\<close>.  The response built from
  it holds a \<open>QueryResult\<close> object, the cache write raises \<open>TypeError\<close>, and the
  exception leaves \<open>query\<close>.
\<close>

theorem query_unified_partial_failure_raises:
  "fst (query_unified (sample_environment [(''cognee'', failing_adapter), (''memento'', one_hit_adapter)])
         ''notes'' [''cognee'', ''memento''] (Some []) [])
     = [\<lparr>result_id = ''m1'', content = ''meeting notes'', source = ''memento'',
          score = 0.5, metadata = [], timestamp = 0, highlights = None\<rparr>]
   \<and> fst (query (sample_environment [(''cognee'', failing_adapter), (''memento'', one_hit_adapter)])
           ''notes'' UNIFIED None (Some []) initial_orchestrator) = Inl TypeError"
  by (simp add: query_def run_mode_def query_unified_def query_single_source_def search_attempt_def
      resolve_sources_def generate_cache_key_def cache_get_def backend_get_def cache_set_def
      QueryCache_init_def initial_orchestrator_def initial_stats_def
      sample_environment_def failing_adapter_def one_hit_adapter_def to_query_result_def
      MemorySource_def process_results_def options_get_def dict_get_def bind_err_def
      deduplicate_results_def rank_def rank_hybrid_def composite_score_def weight_def
      RANKING_WEIGHTS_def get_source_trust_def sorted_desc_def slice_int_def
      Let_def numeral_3_eq_3)

section \<open>Cache hit\<close>

text \<open>
  Claim C10.  When the backend holds a live entry under the key of the request, \<open>query\<close>
  returns the cached response; no adapter call is recorded, the stored entries are the
  same, and \<open>total_queries\<close>, \<open>queries_by_mode\<close>, \<open>queries_by_source\<close> and
  \<open>average_latency\<close> are unchanged: the state differs from the one before the call in
  the two hit counters only (\<open>hits\<close> of the cache and \<open>cache_hit_rate\<close> of the
  statistics, each one higher).
\<close>

theorem query_cache_hit:
  assumes "backend_get (store (cache st))
             (generate_cache_key (py_repr env) q mode srcs opts) (cache_time env) = Some cached"
  shows "fst (query env q mode srcs opts st) = Inr cached
    \<and> adapter_calls (snd (query env q mode srcs opts st)) = adapter_calls st
    \<and> store (cache (snd (query env q mode srcs opts st))) = store (cache st)
    \<and> total_queries (stats (snd (query env q mode srcs opts st))) = total_queries (stats st)
    \<and> queries_by_mode (stats (snd (query env q mode srcs opts st))) = queries_by_mode (stats st)
    \<and> queries_by_source (stats (snd (query env q mode srcs opts st))) = queries_by_source (stats st)
    \<and> average_latency (stats (snd (query env q mode srcs opts st))) = average_latency (stats st)
    \<and> snd (query env q mode srcs opts st)
        = st\<lparr>cache := (cache st)\<lparr>hits := hits (cache st) + 1\<rparr>,
             stats := (stats st)\<lparr>cache_hit_rate := cache_hit_rate (stats st) + 1\<rparr>\<rparr>"
  using assms by (simp add: query_def cache_get_def Let_def)

theorem query_cache_hit_witness:
  "fst (query (sample_environment [(''cognee'', one_hit_adapter)]) ''hello'' UNIFIED None (Some [])
         (initial_orchestrator\<lparr>cache := cache_set_all (cache initial_orchestrator)
             [(generate_cache_key sample_repr ''hello'' UNIFIED None (Some []), sample_response, None, 0)]\<rparr>))
     = Inr sample_response
   \<and> adapter_calls (snd (query (sample_environment [(''cognee'', one_hit_adapter)]) ''hello'' UNIFIED None (Some [])
         (initial_orchestrator\<lparr>cache := cache_set_all (cache initial_orchestrator)
             [(generate_cache_key sample_repr ''hello'' UNIFIED None (Some []), sample_response, None, 0)]\<rparr>))) = []
   \<and> total_queries (stats (snd (query (sample_environment [(''cognee'', one_hit_adapter)]) ''hello'' UNIFIED None (Some [])
         (initial_orchestrator\<lparr>cache := cache_set_all (cache initial_orchestrator)
             [(generate_cache_key sample_repr ''hello'' UNIFIED None (Some []), sample_response, None, 0)]\<rparr>)))) = 0"
proof -
  let ?env = "sample_environment [(''cognee'', one_hit_adapter)]"
  let ?st = "initial_orchestrator\<lparr>cache := cache_set_all (cache initial_orchestrator)
             [(generate_cache_key sample_repr ''hello'' UNIFIED None (Some []), sample_response, None, 0)]\<rparr>"
  have "backend_get (store (cache ?st))
             (generate_cache_key (py_repr ?env) ''hello'' UNIFIED None (Some [])) (cache_time ?env)
          = Some sample_response"
    by (simp add: backend_get_def cache_set_def backend_set_def live_def initial_orchestrator_def
        QueryCache_init_def sample_environment_def sample_response_def)
  from query_cache_hit[OF this] show ?thesis
    by (simp add: initial_orchestrator_def initial_stats_def cache_set_def sample_response_def)
qed

section \<open>Smart mode\<close>

text \<open>
  What smart mode does around its primary call.  A failure of the primary source call is
  the outcome of \<open>query\<close>, whatever the other sources would return; the fan-out of
  unified mode, on the sources used for claim C1 below, isolates the failure and returns
  the result of the source that works.  With an empty resolved source list every mode
  returns the empty response, except smart mode on a query that neither requires context
  nor is a broad search.
\<close>

lemma select_sources_none: "select_sources_for_query env a [] = []"
  by (simp add: select_sources_for_query_def MEMORY_SYSTEM_CONFIG_def)

lemma query_smart_primary_failure_general:
  assumes "backend_get (store (cache st))
             (generate_cache_key (py_repr env) q SMART srcs opts) (cache_time env) = None"
    and "\<not> requires_context (analyze_query q)" and "\<not> broad_search (analyze_query q)"
    and "select_sources_for_query env (analyze_query q) (resolve_sources env srcs) = primary # others"
    and "source_outcome env primary q opts = Inl e"
  shows "fst (query env q SMART srcs opts st) = Inl e"
proof -
  obtain out c1 where a: "query_single_source env primary q opts (adapter_calls st) = (out, c1)"
    by (cases "query_single_source env primary q opts (adapter_calls st)")
  then have "out = Inl e"
    using query_single_source_outcome[of env primary q opts "adapter_calls st"] assms(5) by simp
  with a have "run_mode env q SMART (resolve_sources env srcs) opts (adapter_calls st) = (Inl e, c1)"
    using assms(2,3,4) by (simp add: run_mode_def query_smart_def Let_def)
  then show ?thesis
    using cache_miss[OF assms(1)] by (simp add: query_def Let_def)
qed

lemma query_empty_sources:
  assumes "resolve_sources env srcs = []"
    and "backend_get (store (cache st))
             (generate_cache_key (py_repr env) q mode srcs opts) (cache_time env) = None"
    and "0 \<le> total_queries (stats st)"
    and "mode = SMART \<Longrightarrow> requires_context (analyze_query q) \<or> broad_search (analyze_query q)"
  shows "\<exists>resp. fst (query env q mode srcs opts st) = Inr resp
           \<and> total_results resp = 0
           \<and> results resp = (if mode = PARALLEL then Grouped [] else Ranked [])"
proof -
  define payload where "payload = (if mode = PARALLEL then Grouped [] else Ranked [])"
  have p: "json_serializable payload" "payload_len payload = 0"
    by (simp_all add: payload_def)
  have rm: "run_mode env q mode [] opts (adapter_calls st) = (Inr payload, adapter_calls st)"
  proof (cases mode)
    case UNIFIED
    then show ?thesis
      by (simp add: payload_def run_mode_def query_unified_def process_results_def bind_err_def)
  next
    case SEQUENTIAL
    then show ?thesis
      by (simp add: payload_def run_mode_def query_sequential_def process_results_def bind_err_def)
  next
    case PARALLEL
    then show ?thesis
      by (simp add: payload_def run_mode_def query_parallel_def)
  next
    case SMART
    with assms(4) show ?thesis
      by (auto simp: payload_def run_mode_def query_smart_def select_sources_none
          query_unified_def query_sequential_def process_results_def bind_err_def Let_def)
  qed
  obtain s1 where us: "update_stats mode [] (stats_time env - start_time env) (stats st) = (s1, None)"
    using update_stats_no_error[OF assms(3), of mode "[]" "stats_time env - start_time env"]
    by (cases "update_stats mode [] (stats_time env - start_time env) (stats st)") simp
  have "fst (query env q mode srcs opts st)
          = Inr \<lparr>resp_query = q, resp_mode = mode, results = payload, total_results = 0,
                 processing_time = response_time env - start_time env,
                 sources_queried = [], cache_hit = False,
                 resp_timestamp = utcnow_response env\<rparr>"
    using cache_miss[OF assms(2)] rm us assms(1) p
    by (simp add: query_def cache_set_def Let_def)
  then show ?thesis
    by (simp add: payload_def)
qed

lemma query_unified_isolates:
  "fst (query_unified (sample_environment [(''cognee'', failing_adapter), (''memos'', one_hit_adapter)])
         ''hello'' [''cognee'', ''memos''] (Some []) [])
     = [\<lparr>result_id = ''m1'', content = ''meeting notes'', source = ''memos'',
          score = 0.5, metadata = [], timestamp = 0, highlights = None\<rparr>]"
  by (simp add: query_unified_def query_single_source_def search_attempt_def
      sample_environment_def failing_adapter_def one_hit_adapter_def to_query_result_def
      MemorySource_def bind_err_def Let_def numeral_3_eq_3)

text \<open>
  Claim C1 does not hold of the code.  The query \<open>hello\<close> neither requires context nor
  is a broad search, the top recommended source is \<open>cognee\<close>, and its adapter fails at
  each of the three attempts: the \<open>RetryError\<close> of the primary call leaves
  \<open>_query_smart\<close> and \<open>query\<close>, and \<open>memos\<close> is never asked.
\<close>

theorem query_smart_primary_failure:
  "fst (query (sample_environment [(''cognee'', failing_adapter), (''memos'', one_hit_adapter)])
         ''hello'' SMART None (Some []) initial_orchestrator) = Inl RetryError"
  by (simp add: query_def run_mode_def query_smart_def query_single_source_def search_attempt_def
      resolve_sources_def select_sources_for_query_def analyze_query_def any_in_def lower_def
      lower_char_def split_def isspace_def generate_cache_key_def cache_get_def backend_get_def
      QueryCache_init_def initial_orchestrator_def sample_environment_def failing_adapter_def
      bind_err_def MEMORY_SYSTEM_CONFIG_def Let_def numeral_3_eq_3)

text \<open>
  Claim C2 does not hold of the code in smart mode.  With no adapter configured the
  resolved source list is empty, source selection falls back to that empty list, and for a
  query that neither requires context nor is a broad search \<open>selected_sources[0]\<close>
  raises \<open>IndexError\<close>.
\<close>

theorem query_smart_empty_sources:
  "fst (query (sample_environment []) ''hello'' SMART None (Some []) initial_orchestrator)
     = Inl IndexError"
  by (simp add: query_def run_mode_def query_smart_def
      resolve_sources_def select_sources_for_query_def analyze_query_def any_in_def lower_def
      lower_char_def split_def isspace_def generate_cache_key_def cache_get_def backend_get_def
      QueryCache_init_def initial_orchestrator_def sample_environment_def
      MEMORY_SYSTEM_CONFIG_def Let_def)

section \<open>Cache bound\<close>

text \<open>A \<open>set\<close> of a serializable value under a new key adds an entry whatever
  \<open>max_size\<close> is, so a run of such calls with fresh keys grows the store by its length,
  and entries set at one time with a positive lifetime are all live at that time.\<close>

lemma cache_set_serializable:
  "json_serializable (results v)
     \<Longrightarrow> cache_set c key v ttl now
           = Inr (c\<lparr>store := backend_set (store c) (backend_ttl c) key v ttl now\<rparr>)"
  by (simp add: cache_set_def)

lemma backend_set_new_key:
  assumes "key \<notin> fst ` set st"
  shows "length (backend_set st dflt key v ttl now) = Suc (length st)"
proof -
  have "filter (\<lambda>kv. fst kv \<noteq> key) st = st"
    using assms by (auto simp: filter_id_conv)
  then show ?thesis
    by (simp add: backend_set_def Let_def)
qed

lemma backend_set_keys:
  "fst ` set (backend_set st dflt key v ttl now) = insert key (fst ` set st)"
  by (auto simp: backend_set_def Let_def)

lemma backend_set_live:
  assumes "0 < dflt" and "\<forall>kv\<in>set st. live t (snd kv)"
  shows "\<forall>kv\<in>set (backend_set st dflt key v None t). live t (snd kv)"
  using assms by (auto simp: backend_set_def live_def Let_def)

lemma cache_set_all_grows:
  assumes "distinct (map fst ops)" and "fst ` set ops \<inter> fst ` set (store c) = {}"
    and "\<forall>op\<in>set ops. json_serializable (results (fst (snd op))) \<and> snd (snd op) = (None, t)"
    and "0 < backend_ttl c" and "\<forall>kv\<in>set (store c). live t (snd kv)"
  shows "length (store (cache_set_all c ops)) = length (store c) + length ops
    \<and> max_size (cache_set_all c ops) = max_size c
    \<and> live_entries (cache_set_all c ops) t = store (cache_set_all c ops)"
  using assms
proof (induction ops arbitrary: c)
  case Nil
  then show ?case by (simp add: live_entries_def filter_id_conv)
next
  case (Cons op ops)
  obtain key v where op: "op = (key, v, None, t)" and ser: "json_serializable (results v)"
    using Cons.prems(3) by (cases op) auto
  let ?c = "c\<lparr>store := backend_set (store c) (backend_ttl c) key v None t\<rparr>"
  from Cons.prems op have new: "key \<notin> fst ` set (store c)"
    by auto
  from Cons.prems op have d: "distinct (map fst ops)" and k: "key \<notin> fst ` set ops"
    by auto
  have i: "fst ` set ops \<inter> fst ` set (store ?c) = {}"
    using Cons.prems(2) k by (auto simp: backend_set_keys)
  have s: "\<forall>op\<in>set ops. json_serializable (results (fst (snd op))) \<and> snd (snd op) = (None, t)"
    using Cons.prems(3) by simp
  have l: "\<forall>kv\<in>set (store ?c). live t (snd kv)"
    using backend_set_live[OF Cons.prems(4,5)] by simp
  have b: "0 < backend_ttl ?c"
    using Cons.prems(4) by simp
  from Cons.IH[OF d i s b l] backend_set_new_key[OF new] op ser
  show ?case by (simp add: cache_set_serializable)
qed

lemma cache_three_entries:
  "max_size (cache_set_all (QueryCache_init 300 2)
       [(''k1'', sample_response, None, 0), (''k2'', sample_response, None, 0),
        (''k3'', sample_response, None, 0)]) = 2
   \<and> length (live_entries (cache_set_all (QueryCache_init 300 2)
       [(''k1'', sample_response, None, 0), (''k2'', sample_response, None, 0),
        (''k3'', sample_response, None, 0)]) 0) = 3"
  by (simp add: QueryCache_init_def cache_set_def backend_set_def live_entries_def live_def
      sample_response_def)

lemma fresh_keys_distinct: "distinct (map fst (fresh_keys n))"
proof -
  have "inj_on (\<lambda>i. replicate i CHR ''k'') (set [0..<n])"
    by (rule inj_onI) (metis length_replicate)
  then show ?thesis
    by (simp add: fresh_keys_def comp_def distinct_map)
qed

text \<open>
  Claim C3 does not hold of the code.  \<open>QueryCache\<close> reads \<open>max_size\<close> and never
  uses it: \<open>set\<close> hands the entry to the backend and evicts nothing.  With the
  configured \<open>max_size = 1000\<close> and lifetime 300, 1001 \<open>set\<close> calls with 1001
  different keys leave 1001 live entries.
\<close>

theorem cache_exceeds_max_size:
  "max_size (cache_set_all (QueryCache_init 300 1000) (fresh_keys 1001)) = 1000
   \<and> length (live_entries (cache_set_all (QueryCache_init 300 1000) (fresh_keys 1001)) 0) = 1001"
proof -
  let ?c = "QueryCache_init 300 1000"
  have e: "store ?c = []" "backend_ttl ?c = 300" "max_size ?c = 1000"
    by (simp_all add: QueryCache_init_def)
  have g: "length (store (cache_set_all ?c (fresh_keys 1001))) = length (store ?c) + length (fresh_keys 1001)
      \<and> max_size (cache_set_all ?c (fresh_keys 1001)) = max_size ?c
      \<and> live_entries (cache_set_all ?c (fresh_keys 1001)) 0 = store (cache_set_all ?c (fresh_keys 1001))"
  proof (rule cache_set_all_grows)
    show "distinct (map fst (fresh_keys 1001))"
      by (rule fresh_keys_distinct)
    show "fst ` set (fresh_keys 1001) \<inter> fst ` set (store ?c) = {}"
      by (simp add: e)
    show "\<forall>op\<in>set (fresh_keys 1001).
            json_serializable (results (fst (snd op))) \<and> snd (snd op) = (None, 0)"
      by (auto simp: fresh_keys_def sample_response_def)
    show "0 < backend_ttl ?c"
      by (simp add: e)
    show "\<forall>kv\<in>set (store ?c). live 0 (snd kv)"
      by (simp add: e)
  qed
  then show ?thesis
    by (simp add: e fresh_keys_def)
qed

end
